theory Spec2Isabelle
  imports Main
begin

section \<open>Data model (src/models/device.model.ts)\<close>

datatype DeviceStatus = Connected | Ready | Offline | Error

text \<open>\<open>DeviceType = 'Printer' | 'Scanner' | '3-in-1'\<close>; the last literal is not an
  identifier and is written \<open>ThreeInOne\<close>.\<close>

datatype DeviceType = Printer | Scanner | ThreeInOne

datatype ConnectionType = USB | Network

record USBAlternateInterface =
  interfaceClass :: nat

record USBInterface =
  interfaceNumber :: nat
  alternates :: "USBAlternateInterface list"

record USBConfiguration =
  configurationValue :: nat
  interfaces :: "USBInterface list"

text \<open>The WebUSB device object. Optional members (\<open>manufacturerName?\<close>, \<open>productName?\<close>,
  \<open>serialNumber?\<close>) are options; \<open>configuration: USBConfiguration | null\<close> is an option.
  \<open>vendorId\<close> and \<open>productId\<close> are the 16-bit unsigned identifiers of the USB
  descriptor, kept as naturals.\<close>

record USBDevice =
  vendorId :: nat
  productId :: nat
  manufacturerName :: "string option"
  productName :: "string option"
  serialNumber :: "string option"
  opened :: bool
  configuration :: "USBConfiguration option"
  configurations :: "USBConfiguration list"

text \<open>A \<open>USBDevice\<close> is a mutable object that registry entries and events hold by
  reference. References are handles into a store of objects.\<close>

type_synonym handle = nat

text \<open>The \<open>Device\<close> interface. The field \<open>id\<close> is written \<open>device_id\<close> and \<open>type\<close> is
  written \<open>dtype\<close>; a payload port is a JavaScript number that the caller obtained from
  \<open>parseInt\<close>, an integer.\<close>

record Device =
  device_id :: string
  name :: string
  manufacturer :: string
  dtype :: DeviceType
  status :: DeviceStatus
  connectionType :: ConnectionType
  ipAddress :: "string option"
  port :: "int option"
  profile :: "string option"
  rawDevice :: "handle option"

text \<open>\<open>NetworkDevicePayload\<close> (device.service.ts); its fields carry the prefix
  \<open>payload_\<close> to keep them apart from the fields of \<open>Device\<close>.\<close>

record NetworkDevicePayload =
  payload_ip :: string
  payload_port :: int
  payload_name :: string
  payload_profile :: string

text \<open>A rejected promise or a thrown exception: \<open>new Error(message)\<close>.\<close>

datatype error = JsError string

section \<open>Service state\<close>

text \<open>\<open>devices\<close> is the value of the signal \<open>devices\<close>; \<open>emitted\<close> records, in order,
  every new value the signal has been given by \<open>set\<close> or \<open>update\<close>, which is what an
  observer of the signal can see; \<open>usb\<close> is the store of WebUSB device objects;
  \<open>console\<close> collects what is written with \<open>console.log\<close> and \<open>console.error\<close>.\<close>

record service =
  devices :: "Device list"
  emitted :: "Device list list"
  usb :: "handle \<Rightarrow> USBDevice"
  console :: "string list"

definition set_devices :: "Device list \<Rightarrow> service \<Rightarrow> service" where
  "set_devices v s = s\<lparr>devices := v, emitted := emitted s @ [v]\<rparr>"

definition console_write :: "string \<Rightarrow> service \<Rightarrow> service" where
  "console_write m s = s\<lparr>console := console s @ [m]\<rparr>"

text \<open>The service right after construction: \<open>signal<Device[]>([])\<close>.\<close>

definition new_service :: "(handle \<Rightarrow> USBDevice) \<Rightarrow> service" where
  "new_service objs = \<lparr>devices = [], emitted = [], usb = objs, console = []\<rparr>"

section \<open>Strings\<close>

text \<open>Decimal rendering of a non-negative integer, as a template literal renders it.\<close>

fun string_of_nat :: "nat \<Rightarrow> string" where
  "string_of_nat n =
     (if n < 10 then [''0123456789'' ! n]
      else string_of_nat (n div 10) @ [''0123456789'' ! (n mod 10)])"

declare string_of_nat.simps [simp del]

text \<open>\<open>x || fallback\<close> on an optional string: \<open>undefined\<close> and the empty string are falsy.\<close>

fun or_else :: "string option \<Rightarrow> string \<Rightarrow> string" where
  "or_else None d = d"
| "or_else (Some []) d = d"
| "or_else (Some s) d = s"

fun starts_with :: "string \<Rightarrow> string \<Rightarrow> bool" where
  "starts_with s [] = True"
| "starts_with [] (c # cs) = False"
| "starts_with (x # xs) (c # cs) = (x = c \<and> starts_with xs cs)"

text \<open>\<open>String.prototype.includes\<close>, written \<open>str_includes\<close>.\<close>

fun str_includes :: "string \<Rightarrow> string \<Rightarrow> bool" where
  "str_includes [] sub = starts_with [] sub"
| "str_includes (x # xs) sub = (starts_with (x # xs) sub \<or> str_includes xs sub)"

text \<open>\<open>toLowerCase\<close> on the Latin letters \<open>A\<close> to \<open>Z\<close>; every other character of
  the 8-bit range that the strings here are made of is left as it is.\<close>

definition lower_char :: "char \<Rightarrow> char" where
  "lower_char c =
     (case map_of (zip ''ABCDEFGHIJKLMNOPQRSTUVWXYZ'' ''abcdefghijklmnopqrstuvwxyz'') c of
        None \<Rightarrow> c
      | Some l \<Rightarrow> l)"

definition toLowerCase :: "string \<Rightarrow> string" where
  "toLowerCase s = map lower_char s"

section \<open>Device identity and mapping (device.service.ts)\<close>

definition createDeviceId :: "USBDevice \<Rightarrow> string" where
  "createDeviceId usbDevice =
     ''usb-'' @ string_of_nat (vendorId usbDevice) @ ''-'' @ string_of_nat (productId usbDevice)
       @ ''-'' @ or_else (serialNumber usbDevice) ''0''"

text \<open>\<open>ip.replace(/\./g, '-')\<close> replaces every dot.\<close>

definition createNetworkDeviceId :: "string \<Rightarrow> string" where
  "createNetworkDeviceId ip = ''net-'' @ map (\<lambda>c. if c = CHR ''.'' then CHR ''-'' else c) ip"

text \<open>\<open>iface.alternates[0]?.interfaceClass === 7\<close>: an interface without alternates gives
  \<open>undefined\<close>, which is not 7.\<close>

definition printer_class :: "USBInterface \<Rightarrow> bool" where
  "printer_class iface =
     (case alternates iface of [] \<Rightarrow> False | a # _ \<Rightarrow> interfaceClass a = 7)"

definition inferDeviceType :: "USBDevice \<Rightarrow> DeviceType" where
  "inferDeviceType usbDevice =
     (let nm = toLowerCase (or_else (productName usbDevice) '''');
          isPrinter = (str_includes nm ''printer'' \<or> str_includes nm ''laserjet''
                       \<or> str_includes nm ''officejet'' \<or> str_includes nm ''deskjet'');
          isScanner = (str_includes nm ''scan'' \<or> str_includes nm ''scanner'' \<or> str_includes nm ''lide'')
      in if (isPrinter \<and> isScanner) \<or> str_includes nm ''3-in-1'' \<or> str_includes nm ''all-in-one''
         then ThreeInOne
         else if isPrinter then Printer
         else if isScanner then Scanner
         else if list_ex (\<lambda>config. list_ex printer_class (interfaces config))
                   (configurations usbDevice)
         then Printer
         else Scanner)"

text \<open>\<open>mapUSBDeviceToDevice\<close> reads the object behind the reference and keeps the
  reference in \<open>rawDevice\<close>.\<close>

definition mapUSBDeviceToDevice :: "(handle \<Rightarrow> USBDevice) \<Rightarrow> handle \<Rightarrow> Device" where
  "mapUSBDeviceToDevice objs h =
     (let usbDevice = objs h in
      \<lparr>device_id = createDeviceId usbDevice,
       name = or_else (productName usbDevice) ''Unknown USB Device'',
       manufacturer = or_else (manufacturerName usbDevice) ''Unknown Manufacturer'',
       dtype = inferDeviceType usbDevice,
       status = (if opened usbDevice then Connected else Ready),
       connectionType = USB,
       ipAddress = None,
       port = None,
       profile = None,
       rawDevice = Some h\<rparr>)"

section \<open>Hardware event bridge\<close>

text \<open>\<open>handleConnect\<close>: the argument is \<open>event.device\<close>. When an entry with the id is
  present the updater returns the array it was given and the signal keeps its value.\<close>

definition handleConnect :: "handle \<Rightarrow> service \<Rightarrow> service" where
  "handleConnect h s =
     (let newDevice = mapUSBDeviceToDevice (usb s) h in
      if \<not> list_ex (\<lambda>d. device_id d = device_id newDevice) (devices s)
      then set_devices (devices s @ [newDevice]) s
      else s)"

definition handleDisconnect :: "handle \<Rightarrow> service \<Rightarrow> service" where
  "handleDisconnect h s =
     (let disconnectedId = createDeviceId (usb s h) in
      set_devices (filter (\<lambda>d. device_id d \<noteq> disconnectedId) (devices s)) s)"

text \<open>The number of registry entries with a given id.\<close>

definition entries_with_id :: "string \<Rightarrow> Device list \<Rightarrow> nat" where
  "entries_with_id i ds = length (filter (\<lambda>d. device_id d = i) ds)"

text \<open>\<open>loadPreviouslyPermittedDevices\<close>, run once \<open>navigator.usb.getDevices()\<close> has
  resolved with \<open>permittedDevices\<close>: every mapped device is appended, without a lookup.\<close>

definition loadPreviouslyPermittedDevices :: "handle list \<Rightarrow> service \<Rightarrow> service" where
  "loadPreviouslyPermittedDevices permittedDevices s =
     (let usbDevices = map (mapUSBDeviceToDevice (usb s)) permittedDevices in
      set_devices (devices s @ usbDevices) s)"

text \<open>\<open>scanForUsbDevices\<close>, run once \<open>navigator.usb.requestDevice\<close> has settled: \<open>Inr h\<close> is
  the device the user picked, \<open>Inl\<close> a rejection (nothing picked, permission denied).\<close>

definition scanForUsbDevices :: "string + handle \<Rightarrow> service \<Rightarrow> service" where
  "scanForUsbDevices requested s =
     (case requested of
        Inr requestedDevice \<Rightarrow> handleConnect requestedDevice s
      | Inl e \<Rightarrow> console_write ''No USB device selected or permission denied.'' s)"

section \<open>Network device manager\<close>

text \<open>\<open>addNetworkDevice\<close> runs in two turns of the event loop. The promise executor runs at
  the call: it looks the address up and either rejects or starts a timer of 1000 ms. The
  timer's callback builds the device, appends it and resolves the promise.\<close>

definition addNetworkDevice_executor :: "NetworkDevicePayload \<Rightarrow> service \<Rightarrow> error + unit" where
  "addNetworkDevice_executor payload s =
     (case find (\<lambda>d. ipAddress d = Some (payload_ip payload)) (devices s) of
        Some existing \<Rightarrow> Inl (JsError ''Device with this IP address already exists.'')
      | None \<Rightarrow> Inr ())"

definition addNetworkDevice_timeout :: "NetworkDevicePayload \<Rightarrow> service \<Rightarrow> Device \<times> service" where
  "addNetworkDevice_timeout payload s =
     (let newDevice =
        \<lparr>device_id = createNetworkDeviceId (payload_ip payload),
         name = payload_name payload,
         manufacturer = ''Manual Entry'',
         dtype = (if payload_port payload = 9100 then Printer else Scanner),
         status = Ready,
         connectionType = Network,
         ipAddress = Some (payload_ip payload),
         port = Some (payload_port payload),
         profile = Some (payload_profile payload),
         rawDevice = None\<rparr>
      in (newDevice, set_devices (devices s @ [newDevice]) s))"

text \<open>A call of \<open>addNetworkDevice\<close> that is awaited, with nothing else running between its
  executor and its timer.\<close>

definition addNetworkDevice :: "NetworkDevicePayload \<Rightarrow> service \<Rightarrow> (error + Device) \<times> service" where
  "addNetworkDevice payload s =
     (case addNetworkDevice_executor payload s of
        Inl e \<Rightarrow> (Inl e, s)
      | Inr _ \<Rightarrow> (let (newDevice, s') = addNetworkDevice_timeout payload s in (Inr newDevice, s')))"

text \<open>Two calls of \<open>addNetworkDevice\<close> made one right after the other, the second before
  the timer of the first has fired: both executors run first, then the timers of the calls
  that were not rejected fire in the order they were started.\<close>

definition addNetworkDevice_twice ::
  "NetworkDevicePayload \<Rightarrow> NetworkDevicePayload \<Rightarrow> service
     \<Rightarrow> (error + Device) \<times> (error + Device) \<times> service" where
  "addNetworkDevice_twice payload1 payload2 s =
     (let e1 = addNetworkDevice_executor payload1 s;
          e2 = addNetworkDevice_executor payload2 s;
          (r1, s1) = (case e1 of Inl e \<Rightarrow> (Inl e, s)
                      | Inr _ \<Rightarrow> (let (d, s') = addNetworkDevice_timeout payload1 s in (Inr d, s')));
          (r2, s2) = (case e2 of Inl e \<Rightarrow> (Inl e, s1)
                      | Inr _ \<Rightarrow> (let (d, s') = addNetworkDevice_timeout payload2 s1 in (Inr d, s')))
      in (r1, r2, s2))"

text \<open>\<open>editNetworkDevice\<close> runs whole inside its promise executor, in one turn.\<close>

definition editNetworkDevice ::
  "string \<Rightarrow> NetworkDevicePayload \<Rightarrow> service \<Rightarrow> (error + unit) \<times> service" where
  "editNetworkDevice deviceId payload s =
     (let currentDevices = devices s in
      case find (\<lambda>d. ipAddress d = Some (payload_ip payload) \<and> device_id d \<noteq> deviceId)
             currentDevices of
        Some existingIpDevice \<Rightarrow>
          (Inl (JsError ''Another device with this IP address already exists.''), s)
      | None \<Rightarrow>
          (let updatedDevices =
             map (\<lambda>d. if device_id d = deviceId
                       then d\<lparr>device_id := createNetworkDeviceId (payload_ip payload),
                              name := payload_name payload,
                              ipAddress := Some (payload_ip payload),
                              port := Some (payload_port payload),
                              profile := Some (payload_profile payload)\<rparr>
                       else d) currentDevices
           in (Inr (), set_devices updatedDevices s)))"

section \<open>Connection controller\<close>

text \<open>The methods of a WebUSB device object belong to the browser. Each is a parameter:
  given the object's state it either rejects, \<open>Inl\<close> with the message of the rejection
  (\<open>e.message\<close>), leaving the object as it was, or resolves, \<open>Inr\<close> with the object's
  new state.\<close>

record usb_api =
  hw_open :: "USBDevice \<Rightarrow> string + USBDevice"
  hw_selectConfiguration :: "nat \<Rightarrow> USBDevice \<Rightarrow> string + USBDevice"
  hw_releaseInterface :: "nat \<Rightarrow> USBDevice \<Rightarrow> string + USBDevice"
  hw_close :: "USBDevice \<Rightarrow> string + USBDevice"

definition put_usb :: "handle \<Rightarrow> USBDevice \<Rightarrow> service \<Rightarrow> service" where
  "put_usb h u s = s\<lparr>usb := (usb s)(h := u)\<rparr>"

text \<open>\<open>list.map(d => d.id === deviceId ? { ...d, status: st } : d)\<close>.\<close>

definition with_status :: "string \<Rightarrow> DeviceStatus \<Rightarrow> Device list \<Rightarrow> Device list" where
  "with_status deviceId st list = map (\<lambda>d. if device_id d = deviceId then d\<lparr>status := st\<rparr> else d) list"

text \<open>The configuration that \<open>connectDevice\<close> selects after \<open>open()\<close>:
  \<open>configurations[0].configurationValue\<close> when \<open>configuration === null\<close> and
  \<open>configurations.length > 0\<close>, none otherwise.\<close>

definition configuration_to_select :: "USBDevice \<Rightarrow> nat option" where
  "configuration_to_select u =
     (if configuration u = None
      then (case configurations u of [] \<Rightarrow> None | c # _ \<Rightarrow> Some (configurationValue c))
      else None)"

text \<open>The \<open>try\<close> block of \<open>connectDevice\<close>: \<open>Some msg\<close> is an exception with that
  message, thrown in the state given with it.\<close>

definition connectDevice_try ::
  "usb_api \<Rightarrow> string \<Rightarrow> handle \<Rightarrow> service \<Rightarrow> string option \<times> service" where
  "connectDevice_try api deviceId h s =
     (case hw_open api (usb s h) of
        Inl msg \<Rightarrow> (Some msg, s)
      | Inr u1 \<Rightarrow>
          (let s1 = put_usb h u1 s in
           case configuration_to_select u1 of
             None \<Rightarrow> (None, set_devices (with_status deviceId Connected (devices s1)) s1)
           | Some v \<Rightarrow>
               (case hw_selectConfiguration api v u1 of
                  Inl msg \<Rightarrow> (Some msg, s1)
                | Inr u2 \<Rightarrow>
                    (let s2 = put_usb h u2 s1 in
                     (None, set_devices (with_status deviceId Connected (devices s2)) s2)))))"

text \<open>The \<open>catch\<close> block of \<open>connectDevice\<close>.\<close>

definition connectDevice_catch :: "string \<Rightarrow> string \<Rightarrow> service \<Rightarrow> (error + unit) \<times> service" where
  "connectDevice_catch deviceId msg s =
     (let s1 = set_devices (with_status deviceId Error (devices s)) s;
          s2 = console_write (''Failed to connect to device: '' @ msg) s1
      in (Inl (JsError (''Connection failed: '' @ msg
                          @ ''. The device might be in use by another application.'')), s2))"

text \<open>\<open>connectDevice\<close>, as a call during whose awaits no other event is handled.\<close>

definition connectDevice :: "usb_api \<Rightarrow> string \<Rightarrow> service \<Rightarrow> (error + unit) \<times> service" where
  "connectDevice api deviceId s =
     (case find (\<lambda>d. device_id d = deviceId) (devices s) of
        None \<Rightarrow> (Inl (JsError ''Device not found.''), s)
      | Some device \<Rightarrow>
          (case (connectionType device, rawDevice device) of
             (USB, Some h) \<Rightarrow>
               (case connectDevice_try api deviceId h s of
                  (None, s') \<Rightarrow> (Inr (), s')
                | (Some msg, s') \<Rightarrow> connectDevice_catch deviceId msg s')
           | _ \<Rightarrow> (Inr (), console_write ''Connect action is only for USB devices.'' s)))"

text \<open>The interface that \<open>disconnectDevice\<close> releases: \<open>configuration.interfaces[0]\<close> when
  \<open>configuration?.interfaces.length > 0\<close>, none when there is no active configuration or
  it has no interface.\<close>

definition interface_to_release :: "USBDevice \<Rightarrow> nat option" where
  "interface_to_release u =
     (case configuration u of
        None \<Rightarrow> None
      | Some c \<Rightarrow> (case interfaces c of [] \<Rightarrow> None | i # _ \<Rightarrow> Some (interfaceNumber i)))"

text \<open>The \<open>try\<close> block of \<open>disconnectDevice\<close>, from \<open>close()\<close> on.\<close>

definition disconnectDevice_close ::
  "usb_api \<Rightarrow> string \<Rightarrow> handle \<Rightarrow> service \<Rightarrow> string option \<times> service" where
  "disconnectDevice_close api deviceId h s =
     (case hw_close api (usb s h) of
        Inl msg \<Rightarrow> (Some msg, s)
      | Inr u \<Rightarrow>
          (let s' = put_usb h u s in
           (None, set_devices (with_status deviceId Ready (devices s')) s')))"

text \<open>The \<open>try\<close> block of \<open>disconnectDevice\<close>.\<close>

definition disconnectDevice_try ::
  "usb_api \<Rightarrow> string \<Rightarrow> handle \<Rightarrow> service \<Rightarrow> string option \<times> service" where
  "disconnectDevice_try api deviceId h s =
     (case interface_to_release (usb s h) of
        None \<Rightarrow> disconnectDevice_close api deviceId h s
      | Some n \<Rightarrow>
          (case hw_releaseInterface api n (usb s h) of
             Inl msg \<Rightarrow> (Some msg, s)
           | Inr u \<Rightarrow> disconnectDevice_close api deviceId h (put_usb h u s)))"

text \<open>The \<open>catch\<close> block of \<open>disconnectDevice\<close>.\<close>

definition disconnectDevice_catch :: "string \<Rightarrow> string \<Rightarrow> service \<Rightarrow> (error + unit) \<times> service" where
  "disconnectDevice_catch deviceId msg s =
     (let s1 = set_devices (with_status deviceId Error (devices s)) s;
          s2 = console_write (''Failed to disconnect device: '' @ msg) s1
      in (Inl (JsError ''Failed to disconnect cleanly.''), s2))"

text \<open>\<open>disconnectDevice\<close>, as a call during whose awaits no other event is handled.\<close>

definition disconnectDevice :: "usb_api \<Rightarrow> string \<Rightarrow> service \<Rightarrow> (error + unit) \<times> service" where
  "disconnectDevice api deviceId s =
     (case find (\<lambda>d. device_id d = deviceId) (devices s) of
        None \<Rightarrow> (Inr (), s)
      | Some device \<Rightarrow>
          (case (connectionType device, rawDevice device) of
             (USB, Some h) \<Rightarrow>
               if \<not> opened (usb s h) then (Inr (), s)
               else
                 (case disconnectDevice_try api deviceId h s of
                    (None, s') \<Rightarrow> (Inr (), s')
                  | (Some msg, s') \<Rightarrow> disconnectDevice_catch deviceId msg s')
           | _ \<Rightarrow> (Inr (), s)))"

section \<open>The add/edit form of the component (src/unnamed/part_000)\<close>

text \<open>Strings are sequences of 8-bit characters. \<open>trim\<close> removes white space and line
  terminators at both ends: in this range tab, line feed, vertical tab, form feed,
  carriage return, space and no-break space.\<close>

definition is_space :: "char \<Rightarrow> bool" where
  "is_space c \<longleftrightarrow>
     c \<in> set [CHR 0x09, CHR 0x0A, CHR 0x0B, CHR 0x0C, CHR 0x0D, CHR 0x20, CHR 0xA0]"

definition trim :: "string \<Rightarrow> string" where
  "trim s = rev (dropWhile is_space (rev (dropWhile is_space s)))"

definition is_digit :: "char \<Rightarrow> bool" where
  "is_digit c \<longleftrightarrow> c \<in> set ''0123456789''"

definition digit_value :: "char \<Rightarrow> int" where
  "digit_value c =
     (case map_of [(CHR ''0'', 0), (CHR ''1'', 1), (CHR ''2'', 2), (CHR ''3'', 3), (CHR ''4'', 4),
                   (CHR ''5'', 5), (CHR ''6'', 6), (CHR ''7'', 7), (CHR ''8'', 8), (CHR ''9'', 9)] c of
        None \<Rightarrow> 0
      | Some v \<Rightarrow> v)"

text \<open>\<open>parseInt(s, 10)\<close>: leading white space, an optional sign, then the longest run of
  decimal digits; \<open>None\<close> is \<open>NaN\<close>, the result when that run is empty. The value is kept
  exact; the comparisons of the form with 1 and 65535 do not depend on the rounding of a
  long run to a double.\<close>

definition parseInt :: "string \<Rightarrow> int option" where
  "parseInt s =
     (let s1 = dropWhile is_space s;
          (sign, s2) = (case s1 of
                          [] \<Rightarrow> (1, s1)
                        | c # r \<Rightarrow> if c = CHR ''-'' then (- 1, r)
                                   else if c = CHR ''+'' then (1, r) else (1, s1));
          ds = takeWhile is_digit s2
      in if ds = [] then None
         else Some (sign * foldl (\<lambda>acc c. acc * 10 + digit_value c) 0 ds))"

text \<open>\<open>/^(?:[0-9]{1,3}\.){3}[0-9]{1,3}$/.test\<close>. A group of the pattern is a run of one to
  three digits that a dot (or, for the last group, the end of the input) follows, so it
  is the longest run of digits at its place. \<open>digit_groups n\<close> matches \<open>n\<close> groups with
  their dot and then the last group.\<close>

primrec digit_groups :: "nat \<Rightarrow> string \<Rightarrow> bool" where
  "digit_groups 0 s =
     (let g = takeWhile is_digit s; r = dropWhile is_digit s
      in 1 \<le> length g \<and> length g \<le> 3 \<and> r = [])"
| "digit_groups (Suc n) s =
     (let g = takeWhile is_digit s; r = dropWhile is_digit s
      in 1 \<le> length g \<and> length g \<le> 3 \<and>
         (case r of [] \<Rightarrow> False | c # r' \<Rightarrow> c = CHR ''.'' \<and> digit_groups n r'))"

definition ip_pattern :: "string \<Rightarrow> bool" where
  "ip_pattern s = digit_groups 3 s"

text \<open>The signals of the device modal that \<open>confirmSaveDevice\<close> reads and writes.\<close>

record modal =
  isDeviceModalOpen :: bool
  editingDevice :: "Device option"
  addByIpName :: string
  addByIpAddress :: string
  addByIpPort :: string
  addByIpProfile :: string
  addByIpError :: string
  isSavingDevice :: bool

definition closeDeviceModal :: "modal \<Rightarrow> modal" where
  "closeDeviceModal m = m\<lparr>isDeviceModalOpen := False, editingDevice := None\<rparr>"

text \<open>\<open>String(device.port || '')\<close>: a missing port and the port 0 give the empty string.\<close>

definition port_text :: "int option \<Rightarrow> string" where
  "port_text p =
     (case p of
        None \<Rightarrow> []
      | Some n \<Rightarrow> if n = 0 then []
                  else if n < 0 then ''-'' @ string_of_nat (nat (- n))
                  else string_of_nat (nat n))"

text \<open>\<open>openDeviceModal\<close>: the edit mode is entered for a device whose \<open>connectionType\<close> is
  \<open>'Network'\<close>; for any other device, and for none, the form is opened to add.\<close>

definition openDeviceModal :: "Device option \<Rightarrow> modal \<Rightarrow> modal" where
  "openDeviceModal device m =
     (let add_mode = m\<lparr>editingDevice := None, addByIpName := ''HP LaserJet Pro'',
                        addByIpAddress := ''192.168.1.150'', addByIpPort := ''9100'',
                        addByIpProfile := ''Office Printer''\<rparr>;
          m1 = (case device of
                  None \<Rightarrow> add_mode
                | Some d \<Rightarrow>
                    if connectionType d = Network
                    then m\<lparr>editingDevice := Some d, addByIpName := name d,
                           addByIpAddress := or_else (ipAddress d) [],
                           addByIpPort := port_text (port d),
                           addByIpProfile := or_else (profile d) []\<rparr>
                    else add_mode)
      in m1\<lparr>isDeviceModalOpen := True, addByIpError := [], isSavingDevice := False\<rparr>)"

text \<open>The four checks of \<open>confirmSaveDevice\<close> on the trimmed fields, in the order of the
  source; \<open>Inl\<close> is the message given to \<open>addByIpError\<close> before the early return. The
  source builds the payload first, with a port that may be \<open>NaN\<close>; here the payload is
  built once the port is known to be a number.\<close>

definition confirmSaveDevice_checks ::
  "string \<Rightarrow> string \<Rightarrow> int option \<Rightarrow> string \<Rightarrow> string + NetworkDevicePayload" where
  "confirmSaveDevice_checks nm ipa prt prof =
     (if nm = [] then Inl ''Device Name is required.''
      else if \<not> ip_pattern ipa then Inl ''Please enter a valid IP address.''
      else (case prt of
              None \<Rightarrow> Inl ''Please enter a valid port number (1-65535).''
            | Some n \<Rightarrow>
                if n < 1 \<or> n > 65535 then Inl ''Please enter a valid port number (1-65535).''
                else if prof = [] then Inl ''Profile Name is required.''
                else Inr \<lparr>payload_ip = ipa, payload_port = n, payload_name = nm,
                          payload_profile = prof\<rparr>))"

text \<open>\<open>confirmSaveDevice\<close>, with the service call awaited without anything running in
  between.\<close>

definition confirmSaveDevice :: "modal \<Rightarrow> service \<Rightarrow> modal \<times> service" where
  "confirmSaveDevice m0 s =
     (let m = m0\<lparr>addByIpError := []\<rparr> in
      case confirmSaveDevice_checks (trim (addByIpName m)) (trim (addByIpAddress m))
             (parseInt (trim (addByIpPort m))) (trim (addByIpProfile m)) of
        Inl msg \<Rightarrow> (m\<lparr>addByIpError := msg\<rparr>, s)
      | Inr payload \<Rightarrow>
          (let m1 = m\<lparr>isSavingDevice := True\<rparr>;
               (r, s') = (case editingDevice m1 of
                            Some deviceToEdit \<Rightarrow>
                              (case editNetworkDevice (device_id deviceToEdit) payload s of
                                 (Inl e, s') \<Rightarrow> (Inl e, s')
                               | (Inr _, s') \<Rightarrow> (Inr (), s'))
                          | None \<Rightarrow>
                              (case addNetworkDevice payload s of
                                 (Inl e, s') \<Rightarrow> (Inl e, s')
                               | (Inr _, s') \<Rightarrow> (Inr (), s')));
               m2 = (case r of
                       Inr _ \<Rightarrow> closeDeviceModal m1
                     | Inl (JsError msg) \<Rightarrow> m1\<lparr>addByIpError := msg\<rparr>)
           in (m2\<lparr>isSavingDevice := False\<rparr>, s')))"

section \<open>AI facade (src/unnamed/part_001)\<close>

record TroubleshootingStep =
  title :: string
  details :: "string list"

record TroubleshootingResponse =
  steps :: "TroubleshootingStep list"

text \<open>\<open>ExtractedDocumentData\<close> is a string-keyed record of strings.\<close>

type_synonym ExtractedDocumentData = "(string \<times> string) list"

datatype part = InlineData string string | TextPart string

text \<open>A \<open>generateContent\<close> request: the model, the contents, and whether a JSON response
  with a schema is asked for (the schema is a constant of the source).\<close>

record gen_request =
  model :: string
  contents :: "part list"
  json_response :: bool

text \<open>What the service does not own: the environment variable \<open>API_KEY\<close>, the remote call
  \<open>genAI.models.generateContent\<close> (\<open>Inr\<close> is \<open>response.text\<close>; \<open>Inl (Some msg)\<close> is an
  \<open>Error\<close> with that message, \<open>Inl None\<close> a thrown value that is not an \<open>Error\<close>) and
  \<open>JSON.parse\<close> at the two result types (\<open>None\<close> is its \<open>SyntaxError\<close>).\<close>

record gemini_env =
  API_KEY :: "string option"
  generateContent :: "gen_request \<Rightarrow> string option + string"
  parse_steps :: "string \<Rightarrow> TroubleshootingResponse option"
  parse_document :: "string \<Rightarrow> ExtractedDocumentData option"

text \<open>\<open>!process.env.API_KEY\<close>: an unset or empty variable is falsy.\<close>

definition no_api_key :: "gemini_env \<Rightarrow> bool" where
  "no_api_key env \<longleftrightarrow> (case API_KEY env of None \<Rightarrow> True | Some k \<Rightarrow> k = [])"

definition troubleshooting_prompt :: "string \<Rightarrow> string \<Rightarrow> string" where
  "troubleshooting_prompt deviceName issue =
     ''You are a helpful IT support assistant. '' @ [CHR 0x0A]
     @ ''      A non-technical user is having an issue with their device.'' @ [CHR 0x0A]
     @ ''      Device: '' @ deviceName @ [CHR 0x0A]
     @ ''      Issue: '' @ issue @ [CHR 0x0A]
     @ ''      Provide a simple list of step-by-step troubleshooting instructions. Each step should have a title and an array of detailed sub-steps.''"

definition getTroubleshootingSteps ::
  "gemini_env \<Rightarrow> string \<Rightarrow> string \<Rightarrow> error + TroubleshootingResponse" where
  "getTroubleshootingSteps env deviceName issue =
     (if no_api_key env
      then Inr \<lparr>steps = [\<lparr>title = ''API Key Not Configured'',
                          details = [''Please set the API_KEY environment variable to use the AI Troubleshooter.'']\<rparr>]\<rparr>
      else
        (let failed = \<lparr>steps = [\<lparr>title = ''Error Fetching Steps'',
                                 details = [''Could not get troubleshooting steps from the AI assistant. Please check your network connection and try again.'']\<rparr>]\<rparr>
         in case generateContent env
                   \<lparr>model = ''gemini-2.5-flash'',
                    contents = [TextPart (troubleshooting_prompt deviceName issue)],
                    json_response = True\<rparr> of
              Inl e \<Rightarrow> Inr failed
            | Inr text \<Rightarrow> (case parse_steps env text of None \<Rightarrow> Inr failed | Some r \<Rightarrow> Inr r)))"

text \<open>The split of a string at the last place where \<open>sep\<close> occurs in it.\<close>

fun split_last :: "string \<Rightarrow> string \<Rightarrow> (string \<times> string) option" where
  "split_last sep [] = (if sep = [] then Some ([], []) else None)"
| "split_last sep (c # cs) =
     (case split_last sep cs of
        Some (a, b) \<Rightarrow> Some (c # a, b)
      | None \<Rightarrow> if starts_with (c # cs) sep then Some ([], drop (length sep) (c # cs)) else None)"

text \<open>\<open>base64Image.match(/^data:(image\/.+);base64,(.*)$/)\<close>, giving the two groups. The
  dot matches no line terminator and the first group is greedy: the input has no line
  feed or carriage return, starts with \<open>data:image/\<close> followed by at least one
  character, and is split at the last \<open>;base64,\<close> after that character.\<close>

definition match_data_url :: "string \<Rightarrow> (string \<times> string) option" where
  "match_data_url s =
     (if list_ex (\<lambda>c. c = CHR 0x0A \<or> c = CHR 0x0D) s \<or> \<not> starts_with s ''data:image/'' then None
      else (case drop (length ''data:image/'') s of
              [] \<Rightarrow> None
            | c # r \<Rightarrow>
                (case split_last '';base64,'' r of
                   None \<Rightarrow> None
                 | Some (a, b) \<Rightarrow> Some (''image/'' @ c # a, b))))"

definition analyzeImage :: "gemini_env \<Rightarrow> string \<Rightarrow> string \<Rightarrow> error + string" where
  "analyzeImage env base64Image prompt =
     (if no_api_key env
      then Inr ''Error: API_KEY environment variable not set. Gemini API will not work.''
      else
        (case match_data_url base64Image of
           None \<Rightarrow> Inr (''Error analyzing image: '' @ ''Invalid base64 image string format.'')
         | Some (mimeType, imageBase64) \<Rightarrow>
             (case generateContent env
                     \<lparr>model = ''gemini-2.5-flash'',
                      contents = [InlineData mimeType imageBase64, TextPart prompt],
                      json_response = False\<rparr> of
                Inr text \<Rightarrow> Inr text
              | Inl (Some errorMessage) \<Rightarrow> Inr (''Error analyzing image: '' @ errorMessage)
              | Inl None \<Rightarrow> Inr (''Error analyzing image: '' @ ''An unknown error occurred.''))))"

definition extraction_prompt :: string where
  "extraction_prompt = ''You are an expert OCR system for tabular data. Extract all key-value pairs from the provided Persian utility company form. Populate the JSON object according to the schema with the corresponding values. If a value for a field is not present, use an empty string.''"

definition extractStructuredData :: "gemini_env \<Rightarrow> string \<Rightarrow> error + ExtractedDocumentData" where
  "extractStructuredData env base64Image =
     (if no_api_key env
      then Inl (JsError ''API_KEY environment variable not set. Gemini API will not work.'')
      else
        (case match_data_url base64Image of
           None \<Rightarrow> Inl (JsError ''Invalid base64 image string format.'')
         | Some (mimeType, imageBase64) \<Rightarrow>
             (let failed = JsError ''Failed to extract data from the document. The AI model could not process the request.''
              in case generateContent env
                        \<lparr>model = ''gemini-2.5-flash'',
                         contents = [InlineData mimeType imageBase64, TextPart extraction_prompt],
                         json_response = True\<rparr> of
                   Inl e \<Rightarrow> Inl failed
                 | Inr text \<Rightarrow>
                     (case parse_document env text of None \<Rightarrow> Inl failed | Some r \<Rightarrow> Inr r))))"

section \<open>Notions used by the properties\<close>

text \<open>The entry that \<open>editNetworkDevice\<close> puts in the place of a matching entry \<open>d\<close>: the
  object literal of its \<open>map\<close> callback.\<close>

definition edited :: "NetworkDevicePayload \<Rightarrow> Device \<Rightarrow> Device" where
  "edited payload d =
     d\<lparr>device_id := createNetworkDeviceId (payload_ip payload),
       name := payload_name payload,
       ipAddress := Some (payload_ip payload),
       port := Some (payload_port payload),
       profile := Some (payload_profile payload)\<rparr>"

text \<open>The number of registry entries that hold a given address.\<close>

definition entries_with_address :: "string \<Rightarrow> Device list \<Rightarrow> nat" where
  "entries_with_address a ds = length (filter (\<lambda>d. ipAddress d = Some a) ds)"

text \<open>Every id of the registry is the derived one: a USB entry carries an id made by
  \<open>createDeviceId\<close>, which starts with \<open>usb-\<close>; a network entry holds an address that
  passes the form's pattern, and its id is \<open>createNetworkDeviceId\<close> of that address.\<close>

definition derived_entry :: "Device \<Rightarrow> bool" where
  "derived_entry d =
     (case connectionType d of
        USB \<Rightarrow> starts_with (device_id d) ''usb-''
      | Network \<Rightarrow> (case ipAddress d of
                      None \<Rightarrow> False
                    | Some a \<Rightarrow> ip_pattern a \<and> device_id d = createNetworkDeviceId a))"

definition ids_derived :: "Device list \<Rightarrow> bool" where
  "ids_derived ds = list_all derived_entry ds"

text \<open>A group of the address pattern, as the specification words it: one to three
  decimal digits.\<close>

definition digit_group :: "string \<Rightarrow> bool" where
  "digit_group g \<longleftrightarrow> 1 \<le> length g \<and> length g \<le> 3 \<and> list_all is_digit g"

section \<open>Sequences of service operations\<close>

text \<open>What can happen to the service, one turn of the event loop each: the two hardware
  notifications; the list of permitted devices arriving; the outcome of the device
  picker; the timer of \<open>addNetworkDevice\<close> firing; and the calls of \<open>editNetworkDevice\<close>,
  \<open>connectDevice\<close> and \<open>disconnectDevice\<close>, the last two with the behaviour of the
  hardware during the call.\<close>

datatype event =
    UsbConnect handle
  | UsbDisconnect handle
  | PermittedLoaded "handle list"
  | UsbPicked "string + handle"
  | AddTimeout NetworkDevicePayload
  | EditNetwork string NetworkDevicePayload
  | ConnectAction usb_api string
  | DisconnectAction usb_api string

fun step :: "event \<Rightarrow> service \<Rightarrow> service" where
  "step (UsbConnect h) s = handleConnect h s"
| "step (UsbDisconnect h) s = handleDisconnect h s"
| "step (PermittedLoaded hs) s = loadPreviouslyPermittedDevices hs s"
| "step (UsbPicked r) s = scanForUsbDevices r s"
| "step (AddTimeout p) s = snd (addNetworkDevice_timeout p s)"
| "step (EditNetwork i p) s = snd (editNetworkDevice i p s)"
| "step (ConnectAction api i) s = snd (connectDevice api i s)"
| "step (DisconnectAction api i) s = snd (disconnectDevice api i s)"

text \<open>\<open>confirmSaveDevice\<close> calls \<open>editNetworkDevice\<close> with the id of \<open>editingDevice\<close>, which
  \<open>openDeviceModal\<close> sets only to a device whose \<open>connectionType\<close> is \<open>'Network'\<close>: an edit is
  not issued for the id of a USB entry. Every other event can happen in every state.\<close>

fun enabled :: "event \<Rightarrow> service \<Rightarrow> bool" where
  "enabled (EditNetwork i p) s =
     (case find (\<lambda>e. device_id e = i) (devices s) of
        None \<Rightarrow> True
      | Some d \<Rightarrow> connectionType d = Network)"
| "enabled _ s = True"

text \<open>The state after a sequence of events, \<open>None\<close> when one of them cannot happen.\<close>

fun run :: "event list \<Rightarrow> service \<Rightarrow> service option" where
  "run [] s = Some s"
| "run (ev # evs) s = (if enabled ev s then run evs (step ev s) else None)"

text \<open>The events whose payload has an address that passes the pattern of the form, as
  every payload has that \<open>confirmSaveDevice\<close> hands to the service.\<close>

fun validated :: "event \<Rightarrow> bool" where
  "validated (AddTimeout p) = ip_pattern (payload_ip p)"
| "validated (EditNetwork i p) = ip_pattern (payload_ip p)"
| "validated _ = True"

text \<open>The invariant of the registry behind the status of network devices: a USB entry has
  an id that starts with \<open>usb-\<close>; a network entry is \<open>Ready\<close> and its id starts with
  \<open>net-\<close>.\<close>

definition entry_ok :: "Device \<Rightarrow> bool" where
  "entry_ok d =
     (case connectionType d of
        USB \<Rightarrow> starts_with (device_id d) ''usb-''
      | Network \<Rightarrow> status d = Ready \<and> starts_with (device_id d) ''net-'')"

definition network_ready :: "Device list \<Rightarrow> bool" where
  "network_ready ds = list_all entry_ok ds"

section \<open>Example inputs\<close>

definition ex_config :: USBConfiguration where
  "ex_config = \<lparr>configurationValue = 1,
                interfaces = [\<lparr>interfaceNumber = 0, alternates = [\<lparr>interfaceClass = 7\<rparr>]\<rparr>]\<rparr>"

definition ex_usb :: USBDevice where
  "ex_usb = \<lparr>vendorId = 1008, productId = 42, manufacturerName = Some ''HP'',
             productName = Some ''HP LaserJet'', serialNumber = None, opened = False,
             configuration = None, configurations = [ex_config]\<rparr>"

definition ex_usb_opened :: USBDevice where
  "ex_usb_opened = ex_usb\<lparr>opened := True, configuration := Some ex_config\<rparr>"

text \<open>A store in which every reference leads to a device of the same model without a
  serial number, closed, and one in which they are open.\<close>

definition ex_objs :: "handle \<Rightarrow> USBDevice" where
  "ex_objs = (\<lambda>h. ex_usb)"

definition ex_objs_opened :: "handle \<Rightarrow> USBDevice" where
  "ex_objs_opened = (\<lambda>h. ex_usb_opened)"

definition ex_usb_entry :: Device where
  "ex_usb_entry = \<lparr>device_id = ''usb-1008-42-0'', name = ''HP LaserJet'', manufacturer = ''HP'',
                   dtype = Printer, status = Ready, connectionType = USB, ipAddress = None,
                   port = None, profile = None, rawDevice = Some 0\<rparr>"

text \<open>The values the form of the component starts with.\<close>

definition ex_payload :: NetworkDevicePayload where
  "ex_payload = \<lparr>payload_ip = ''192.168.1.150'', payload_port = 9100,
                 payload_name = ''HP LaserJet Pro'', payload_profile = ''Office Printer''\<rparr>"

definition ex_net_entry :: Device where
  "ex_net_entry = \<lparr>device_id = ''net-192-168-1-150'', name = ''HP LaserJet Pro'',
                   manufacturer = ''Manual Entry'', dtype = Printer, status = Ready,
                   connectionType = Network, ipAddress = Some ''192.168.1.150'',
                   port = Some 9100, profile = Some ''Office Printer'', rawDevice = None\<rparr>"

definition ex_scanner_entry :: Device where
  "ex_scanner_entry = \<lparr>device_id = ''net-10-0-0-7'', name = ''Flatbed'',
                   manufacturer = ''Manual Entry'', dtype = Scanner, status = Ready,
                   connectionType = Network, ipAddress = Some ''10.0.0.7'',
                   port = Some 8080, profile = Some ''Archive'', rawDevice = None\<rparr>"

definition ex_payload_moved :: NetworkDevicePayload where
  "ex_payload_moved = \<lparr>payload_ip = ''10.0.0.8'', payload_port = 9100,
                       payload_name = ''Flatbed'', payload_profile = ''Archive''\<rparr>"

definition ex_payload_port :: NetworkDevicePayload where
  "ex_payload_port = \<lparr>payload_ip = ''10.0.0.7'', payload_port = 9100,
                      payload_name = ''Flatbed'', payload_profile = ''Front desk''\<rparr>"

definition ex_service :: service where
  "ex_service = new_service ex_objs"

definition ex_payload_scanner :: NetworkDevicePayload where
  "ex_payload_scanner = \<lparr>payload_ip = ''10.0.0.7'', payload_port = 8080,
                         payload_name = ''Flatbed'', payload_profile = ''Archive''\<rparr>"

text \<open>The service after a connect notification for reference 0 and two added network
  devices.\<close>

definition ex_events :: "event list" where
  "ex_events = [UsbConnect 0, AddTimeout ex_payload, AddTimeout ex_payload_scanner]"

definition ex_registry :: service where
  "ex_registry = \<lparr>devices = [ex_usb_entry, ex_net_entry, ex_scanner_entry],
                  emitted = [[ex_usb_entry], [ex_usb_entry, ex_net_entry],
                             [ex_usb_entry, ex_net_entry, ex_scanner_entry]],
                  usb = ex_objs, console = []\<rparr>"

definition ex_registry_opened :: service where
  "ex_registry_opened = \<lparr>devices = [ex_usb_entry\<lparr>status := Connected\<rparr>, ex_net_entry],
                         emitted = [], usb = ex_objs_opened, console = []\<rparr>"

text \<open>A device whose \<open>open()\<close> is rejected; one that opens and rejects
  \<open>selectConfiguration\<close>; one whose \<open>releaseInterface\<close> is rejected while \<open>close()\<close>
  would succeed.\<close>

definition ex_api_open_fails :: usb_api where
  "ex_api_open_fails =
     \<lparr>hw_open = (\<lambda>u. Inl ''Access denied''),
      hw_selectConfiguration = (\<lambda>v u. Inr u),
      hw_releaseInterface = (\<lambda>n u. Inr u),
      hw_close = (\<lambda>u. Inr (u\<lparr>opened := False\<rparr>))\<rparr>"

definition ex_api_select_fails :: usb_api where
  "ex_api_select_fails =
     \<lparr>hw_open = (\<lambda>u. Inr (u\<lparr>opened := True\<rparr>)),
      hw_selectConfiguration = (\<lambda>v u. Inl ''Unable to set device configuration''),
      hw_releaseInterface = (\<lambda>n u. Inr u),
      hw_close = (\<lambda>u. Inr (u\<lparr>opened := False\<rparr>))\<rparr>"

definition ex_api_release_fails :: usb_api where
  "ex_api_release_fails =
     \<lparr>hw_open = (\<lambda>u. Inr (u\<lparr>opened := True\<rparr>)),
      hw_selectConfiguration = (\<lambda>v u. Inr u),
      hw_releaseInterface = (\<lambda>n u. Inl ''Interface not claimed''),
      hw_close = (\<lambda>u. Inr (u\<lparr>opened := False\<rparr>))\<rparr>"

text \<open>A form with the port 70000 and otherwise its starting values.\<close>

definition ex_modal :: modal where
  "ex_modal = \<lparr>isDeviceModalOpen = True, editingDevice = None,
               addByIpName = ''HP LaserJet Pro'', addByIpAddress = ''192.168.1.150'',
               addByIpPort = ''70000'', addByIpProfile = ''Office Printer'',
               addByIpError = [], isSavingDevice = False\<rparr>"

text \<open>An environment without \<open>API_KEY\<close>.\<close>

definition ex_env_no_key :: gemini_env where
  "ex_env_no_key = \<lparr>API_KEY = None, generateContent = (\<lambda>r. Inl None),
                    parse_steps = (\<lambda>t. None), parse_document = (\<lambda>t. None)\<rparr>"

definition ex_image :: string where
  "ex_image = ''data:image/png;base64,iVBORw0KGgo=''"

text \<open>The service after one network device was added and a connect was tried on it.\<close>

definition ex_after_add :: service where
  "ex_after_add = \<lparr>devices = [ex_net_entry], emitted = [[ex_net_entry]], usb = ex_objs,
                   console = [''Connect action is only for USB devices.'']\<rparr>"

section \<open>Connect notifications\<close>

lemma handleConnect_usb: "usb (handleConnect h s) = usb s"
  by (simp add: handleConnect_def set_devices_def Let_def)

lemma fold_handleConnect_usb: "usb (fold handleConnect hs s) = usb s"
  by (induction hs arbitrary: s) (simp_all add: handleConnect_usb)

lemma mapUSBDeviceToDevice_id: "device_id (mapUSBDeviceToDevice objs h) = createDeviceId (objs h)"
  by (simp add: mapUSBDeviceToDevice_def Let_def)

lemma handleConnect_present:
  "createDeviceId (usb s h) \<in> device_id ` set (devices (handleConnect h s))"
  by (force simp: handleConnect_def set_devices_def Let_def mapUSBDeviceToDevice_id list_ex_iff)

lemma handleConnect_keeps:
  "i \<in> device_id ` set (devices s) \<Longrightarrow> i \<in> device_id ` set (devices (handleConnect h s))"
  by (auto simp: handleConnect_def set_devices_def Let_def)

lemma handleConnect_distinct:
  "distinct (map device_id (devices s)) \<Longrightarrow> distinct (map device_id (devices (handleConnect h s)))"
  by (auto simp: handleConnect_def set_devices_def Let_def mapUSBDeviceToDevice_id list_ex_iff)

lemma fold_handleConnect_distinct:
  "distinct (map device_id (devices s)) \<Longrightarrow>
   distinct (map device_id (devices (fold handleConnect hs s)))"
  by (induction hs arbitrary: s) (simp_all add: handleConnect_distinct)

lemma fold_handleConnect_keeps:
  "i \<in> device_id ` set (devices s) \<Longrightarrow> i \<in> device_id ` set (devices (fold handleConnect hs s))"
  by (induction hs arbitrary: s) (simp_all add: handleConnect_keeps)

lemma entries_with_id_distinct:
  "distinct (map device_id ds) \<Longrightarrow> i \<in> device_id ` set ds \<Longrightarrow> entries_with_id i ds = 1"
  unfolding entries_with_id_def
proof (induction ds)
  case Nil
  then show ?case by simp
next
  case (Cons d ds)
  show ?case
  proof (cases "device_id d = i")
    case True
    from Cons.prems(1) True have "i \<notin> device_id ` set ds" by simp
    then have "\<forall>x\<in>set ds. device_id x \<noteq> i" by blast
    then have "filter (\<lambda>d. device_id d = i) ds = []" by (simp add: filter_empty_conv)
    with True show ?thesis by simp
  next
    case False
    with Cons show ?thesis by auto
  qed
qed

lemma handleConnect_again:
  "createDeviceId (usb s h') = createDeviceId (usb s h) \<Longrightarrow>
   handleConnect h' (handleConnect h s) = handleConnect h s"
  using handleConnect_present [of s h]
  by (auto simp: handleConnect_def [of h'] mapUSBDeviceToDevice_id handleConnect_usb list_ex_iff Let_def)

text \<open>The USB entry of the examples is the entry that the mapping makes for reference 0.\<close>

lemma ex_usb_entry_mapped: "mapUSBDeviceToDevice ex_objs 0 = ex_usb_entry"
  by (simp add: mapUSBDeviceToDevice_def ex_objs_def ex_usb_def ex_usb_entry_def createDeviceId_def
      string_of_nat.simps inferDeviceType_def toLowerCase_def lower_char_def Let_def)

text \<open>Claim C1 (idempotent upsert on connect notifications). Take a registry whose ids are
  pairwise different, in particular the empty registry of a service just constructed,
  and let any sequence \<open>hs\<close> of connect notifications be delivered. If a notification for
  \<open>h\<close> is then followed by a notification \<open>h'\<close> with the same \<open>vendorId\<close>, \<open>productId\<close> and
  \<open>serialNumber\<close>, the second delivery leaves the whole service state as it was, the
  signal included; the registry then holds exactly one entry with the id derived from
  that triple; and this stays so when the repetition comes later, after further
  notifications \<open>rest\<close>, and whatever notifications \<open>rest'\<close> follow it.\<close>

theorem handleConnect_idempotent:
  assumes "distinct (map device_id (devices s0))"
    and "s = fold handleConnect hs s0"
    and "vendorId (usb s0 h') = vendorId (usb s0 h)"
    and "productId (usb s0 h') = productId (usb s0 h)"
    and "serialNumber (usb s0 h') = serialNumber (usb s0 h)"
  shows "handleConnect h' (handleConnect h s) = handleConnect h s
       \<and> entries_with_id (createDeviceId (usb s0 h)) (devices (handleConnect h' (handleConnect h s))) = 1
       \<and> entries_with_id (createDeviceId (usb s0 h))
            (devices (fold handleConnect (rest @ [h'] @ rest') (handleConnect h s))) = 1"
proof -
  have u: "usb s = usb s0" using assms(2) by (simp add: fold_handleConnect_usb)
  have ids: "createDeviceId (usb s h') = createDeviceId (usb s h)"
    using assms(3-5) by (simp add: u createDeviceId_def)
  have d0: "distinct (map device_id (devices s))"
    using assms(1,2) by (simp add: fold_handleConnect_distinct)
  have d1: "distinct (map device_id (devices (handleConnect h s)))"
    using d0 by (rule handleConnect_distinct)
  have p1: "createDeviceId (usb s0 h) \<in> device_id ` set (devices (handleConnect h s))"
    using handleConnect_present [of s h] by (simp add: u)
  have a: "handleConnect h' (handleConnect h s) = handleConnect h s"
    using ids by (rule handleConnect_again)
  have b: "entries_with_id (createDeviceId (usb s0 h)) (devices (handleConnect h s)) = 1"
    using d1 p1 by (rule entries_with_id_distinct)
  have c: "entries_with_id (createDeviceId (usb s0 h))
            (devices (fold handleConnect (rest @ [h'] @ rest') (handleConnect h s))) = 1"
    using fold_handleConnect_distinct [OF d1] fold_handleConnect_keeps [OF p1]
    by (rule entries_with_id_distinct)
  show ?thesis using a b c by simp
qed

text \<open>Claim C1, at a concrete input: a service just constructed, four references to devices
  of one model without a serial number; the notification is delivered for reference 0
  and repeated for reference 1, at once and between two other notifications.\<close>

theorem handleConnect_idempotent_witness:
  "handleConnect 1 (handleConnect 0 ex_service) = handleConnect 0 ex_service
   \<and> entries_with_id ''usb-1008-42-0'' (devices (handleConnect 1 (handleConnect 0 ex_service))) = 1
   \<and> entries_with_id ''usb-1008-42-0''
        (devices (fold handleConnect ([2] @ [1] @ [3]) (handleConnect 0 ex_service))) = 1"
proof -
  have h0: "distinct (map device_id (devices ex_service))"
    by (simp add: ex_service_def new_service_def)
  have h1: "ex_service = fold handleConnect [] ex_service" by simp
  have h2: "vendorId (usb ex_service 1) = vendorId (usb ex_service 0)"
    and h3: "productId (usb ex_service 1) = productId (usb ex_service 0)"
    and h4: "serialNumber (usb ex_service 1) = serialNumber (usb ex_service 0)"
    by (simp_all add: ex_service_def new_service_def ex_objs_def)
  have i: "createDeviceId (usb ex_service 0) = ''usb-1008-42-0''"
    by (simp add: ex_service_def new_service_def ex_objs_def createDeviceId_def ex_usb_def
        string_of_nat.simps)
  from handleConnect_idempotent [OF h0 h1 h2 h3 h4, of "[2]" "[3]"] show ?thesis
    unfolding i .
qed

section \<open>Identity of network devices\<close>

lemma digit_groups_chars:
  "digit_groups n s \<Longrightarrow> c \<in> set s \<Longrightarrow> is_digit c \<or> c = CHR ''.''"
proof (induction n arbitrary: s)
  case 0
  then have "dropWhile is_digit s = []" by (simp add: Let_def)
  then have "\<forall>x\<in>set s. is_digit x" by (simp add: dropWhile_eq_Nil_conv)
  with 0 show ?case by blast
next
  case (Suc n)
  from Suc.prems(1) obtain r' where r: "dropWhile is_digit s = CHR ''.'' # r'" and g: "digit_groups n r'"
    by (auto simp: Let_def split: list.splits)
  have "set s = set (takeWhile is_digit s @ dropWhile is_digit s)" by simp
  then have "set s = set (takeWhile is_digit s) \<union> set (CHR ''.'' # r')"
    unfolding r [symmetric] by (simp only: set_append)
  with Suc.prems(2) consider "c \<in> set (takeWhile is_digit s)" | "c = CHR ''.''" | "c \<in> set r'" by auto
  then show ?case
  proof cases
    case 1
    then show ?thesis by (auto dest: set_takeWhileD)
  next
    case 2
    then show ?thesis by simp
  next
    case 3
    then show ?thesis using Suc.IH [OF g] by simp
  qed
qed

lemma ip_pattern_no_dash: "ip_pattern a \<Longrightarrow> CHR ''-'' \<notin> set a"
  using digit_groups_chars [of 3 a "CHR ''-''"] by (auto simp: ip_pattern_def is_digit_def)

lemma createNetworkDeviceId_inj:
  assumes "CHR ''-'' \<notin> set a" and "CHR ''-'' \<notin> set b"
    and "createNetworkDeviceId a = createNetworkDeviceId b"
  shows "a = b"
proof -
  let ?f = "\<lambda>c. if c = CHR ''.'' then CHR ''-'' else c"
  have "inj_on ?f (set a \<union> set b)"
  proof (rule inj_onI)
    fix x y assume "x \<in> set a \<union> set b" "y \<in> set a \<union> set b" "?f x = ?f y"
    with assms(1,2) show "x = y" by (cases "x = CHR ''.''"; cases "y = CHR ''.''"; auto)
  qed
  moreover have "map ?f a = map ?f b" using assms(3) by (simp add: createNetworkDeviceId_def)
  ultimately show ?thesis by (rule map_inj_on [rotated])
qed

lemma createNetworkDeviceId_valid_inj:
  "ip_pattern a \<Longrightarrow> ip_pattern b \<Longrightarrow> createNetworkDeviceId a = createNetworkDeviceId b \<Longrightarrow> a = b"
  using createNetworkDeviceId_inj [of a b] ip_pattern_no_dash [of a] ip_pattern_no_dash [of b] by simp

lemma createNetworkDeviceId_not_usb: "\<not> starts_with (createNetworkDeviceId a) ''usb-''"
  by (simp add: createNetworkDeviceId_def)

section \<open>Editing a network device\<close>

lemma editNetworkDevice_accepts:
  assumes "find (\<lambda>e. ipAddress e = Some (payload_ip p) \<and> device_id e \<noteq> i) (devices s) = None"
  shows "editNetworkDevice i p s =
           (Inr (), set_devices (map (\<lambda>e. if device_id e = i then edited p e else e) (devices s)) s)"
  using assms unfolding editNetworkDevice_def Let_def edited_def by simp

lemma editNetworkDevice_rejects:
  assumes "find (\<lambda>e. ipAddress e = Some (payload_ip p) \<and> device_id e \<noteq> i) (devices s) = Some x"
  shows "editNetworkDevice i p s =
           (Inl (JsError ''Another device with this IP address already exists.''), s)"
  using assms by (simp add: editNetworkDevice_def Let_def)

lemma find_unique:
  "entries_with_id i ds = 1 \<Longrightarrow> d \<in> set ds \<Longrightarrow> device_id d = i \<Longrightarrow>
   find (\<lambda>e. device_id e = i) ds = Some d"
  unfolding entries_with_id_def
proof (induction ds)
  case Nil
  then show ?case by simp
next
  case (Cons x ds)
  show ?case
  proof (cases "device_id x = i")
    case True
    with Cons.prems(1) have "filter (\<lambda>e. device_id e = i) ds = []" by simp
    then have "\<forall>e\<in>set ds. device_id e \<noteq> i" by (simp add: filter_empty_conv)
    with Cons.prems(2,3) have "d = x" by auto
    with True show ?thesis by simp
  next
    case False
    with Cons show ?thesis by auto
  qed
qed

lemma find_after_edit_old:
  assumes "n \<noteq> i" and "\<And>e. device_id (f e) = n"
  shows "find (\<lambda>e. device_id e = i) (map (\<lambda>e. if device_id e = i then f e else e) ds) = None"
  using assms by (induction ds) auto

lemma find_after_edit_new:
  assumes "find (\<lambda>e. device_id e = i) ds = Some d"
    and "\<And>e. device_id (f e) = n"
    and "\<forall>e\<in>set ds. device_id e \<noteq> i \<longrightarrow> device_id e \<noteq> n"
  shows "find (\<lambda>e. device_id e = n) (map (\<lambda>e. if device_id e = i then f e else e) ds) = Some (f d)"
  using assms by (induction ds) (auto split: if_splits)

lemma ids_derivedD:
  assumes "ids_derived ds" and "e \<in> set ds"
  shows "(connectionType e = USB \<and> starts_with (device_id e) ''usb-'') \<or>
         (connectionType e = Network \<and>
           (\<exists>a. ipAddress e = Some a \<and> ip_pattern a \<and> device_id e = createNetworkDeviceId a))"
proof -
  from assms have "derived_entry e" by (simp add: ids_derived_def list_all_iff)
  then show ?thesis
    unfolding derived_entry_def by (cases "connectionType e"; cases "ipAddress e"; simp)
qed

text \<open>The replacement of an entry by an edit that changes the address, for every registry
  whose ids are the derived ones.\<close>

lemma editNetworkDevice_replaces_derived:
  assumes wf: "ids_derived (devices s)"
    and mem: "d \<in> set (devices s)"
    and net: "connectionType d = Network"
    and uniq: "entries_with_id (device_id d) (devices s) = 1"
    and valid: "ip_pattern (payload_ip p)"
    and changed: "ipAddress d \<noteq> Some (payload_ip p)"
    and free: "find (\<lambda>e. ipAddress e = Some (payload_ip p) \<and> device_id e \<noteq> device_id d) (devices s) = None"
  shows "\<exists>s'. editNetworkDevice (device_id d) p s = (Inr (), s')
           \<and> emitted s' = emitted s @ [devices s']
           \<and> find (\<lambda>e. device_id e = device_id d) (devices s') = None
           \<and> find (\<lambda>e. device_id e = createNetworkDeviceId (payload_ip p)) (devices s')
               = Some (d\<lparr>device_id := createNetworkDeviceId (payload_ip p),
                         name := payload_name p,
                         ipAddress := Some (payload_ip p),
                         port := Some (payload_port p),
                         profile := Some (payload_profile p)\<rparr>)"
proof -
  let ?i = "device_id d" and ?n = "createNetworkDeviceId (payload_ip p)"
  let ?ds' = "map (\<lambda>e. if device_id e = ?i then edited p e else e) (devices s)"
  let ?s' = "set_devices ?ds' s"
  from ids_derivedD [OF wf mem] net obtain a where
    a: "ipAddress d = Some a" "ip_pattern a" "?i = createNetworkDeviceId a" by auto
  from a(1) changed have "a \<noteq> payload_ip p" by simp
  with a(2,3) valid have ne: "?n \<noteq> ?i"
    using createNetworkDeviceId_valid_inj [of a "payload_ip p"] by auto
  have others: "\<forall>e\<in>set (devices s). device_id e \<noteq> ?i \<longrightarrow> device_id e \<noteq> ?n"
  proof (intro ballI impI notI)
    fix e assume e: "e \<in> set (devices s)" "device_id e \<noteq> ?i" "device_id e = ?n"
    from ids_derivedD [OF wf e(1)] show False
    proof
      assume "connectionType e = USB \<and> starts_with (device_id e) ''usb-''"
      with e(3) show False by (simp add: createNetworkDeviceId_not_usb)
    next
      assume "connectionType e = Network \<and>
        (\<exists>a. ipAddress e = Some a \<and> ip_pattern a \<and> device_id e = createNetworkDeviceId a)"
      then obtain b where b: "ipAddress e = Some b" "ip_pattern b" "device_id e = createNetworkDeviceId b"
        by auto
      from b(2,3) e(3) valid have "b = payload_ip p"
        using createNetworkDeviceId_valid_inj [of b "payload_ip p"] by simp
      with b(1) e(1,2) free show False by (auto simp: find_None_iff)
    qed
  qed
  have r: "editNetworkDevice ?i p s = (Inr (), ?s')" using free by (rule editNetworkDevice_accepts)
  have em: "emitted ?s' = emitted s @ [devices ?s']" by (simp add: set_devices_def)
  have idn: "\<And>e. device_id (edited p e) = ?n" by (simp add: edited_def)
  have old: "find (\<lambda>e. device_id e = ?i) (devices ?s') = None"
    using find_after_edit_old [OF ne idn] by (simp add: set_devices_def)
  have fd: "find (\<lambda>e. device_id e = ?i) (devices s) = Some d"
    using uniq mem by (simp add: find_unique)
  have new: "find (\<lambda>e. device_id e = ?n) (devices ?s') = Some (edited p d)"
    using find_after_edit_new [OF fd idn others] by (simp add: set_devices_def)
  from r em old new show ?thesis unfolding edited_def by blast
qed

lemma edit_devices:
  "devices (snd (editNetworkDevice i p s)) = devices s \<or>
   devices (snd (editNetworkDevice i p s)) = map (\<lambda>e. if device_id e = i then edited p e else e) (devices s)"
proof (cases "find (\<lambda>e. ipAddress e = Some (payload_ip p) \<and> device_id e \<noteq> i) (devices s)")
  case None
  then show ?thesis by (simp add: editNetworkDevice_accepts set_devices_def)
next
  case (Some x)
  then show ?thesis by (simp add: editNetworkDevice_rejects)
qed

lemma edited_frame:
  "status (edited p e) = status e" "manufacturer (edited p e) = manufacturer e"
  "connectionType (edited p e) = connectionType e" "dtype (edited p e) = dtype e"
  "rawDevice (edited p e) = rawDevice e"
  by (simp_all add: edited_def)

lemma map_edited_frame:
  assumes "\<And>e. f (edited p e) = f e"
  shows "map f (map (\<lambda>e. if device_id e = i then edited p e else e) ds) = map f ds"
  using assms by (induction ds) simp_all

lemma editNetworkDevice_usb: "usb (snd (editNetworkDevice i p s)) = usb s"
  by (simp add: editNetworkDevice_def Let_def set_devices_def split: option.splits)

lemma editNetworkDevice_keeps:
  "map status (devices (snd (editNetworkDevice i p s))) = map status (devices s)"
  "map manufacturer (devices (snd (editNetworkDevice i p s))) = map manufacturer (devices s)"
  "map connectionType (devices (snd (editNetworkDevice i p s))) = map connectionType (devices s)"
  "map dtype (devices (snd (editNetworkDevice i p s))) = map dtype (devices s)"
  "map rawDevice (devices (snd (editNetworkDevice i p s))) = map rawDevice (devices s)"
  using edit_devices [of i p s] by (auto simp: map_edited_frame edited_frame)

lemma editNetworkDevice_length:
  "length (devices (snd (editNetworkDevice i p s))) = length (devices s)"
  using edit_devices [of i p s] by auto

lemma editNetworkDevice_others:
  assumes "k < length (devices s)" and "device_id (devices s ! k) \<noteq> i"
  shows "devices (snd (editNetworkDevice i p s)) ! k = devices s ! k"
  using edit_devices [of i p s] assms by auto

text \<open>Claim C10 (what an edit leaves alone). For every id, payload and state, whether the
  call is accepted or rejected: the registry after \<open>editNetworkDevice\<close> has, position by
  position, the \<open>status\<close>, \<open>manufacturer\<close>, \<open>connectionType\<close>, \<open>type\<close> and \<open>rawDevice\<close> it had
  before, it has the same length, and every entry with another id is the entry it was.
  The type is therefore not inferred again from the new port, although the timer of
  \<open>addNetworkDevice\<close> gives a device with port 9100 the type \<open>Printer\<close>.\<close>

theorem editNetworkDevice_frame:
  "map status (devices (snd (editNetworkDevice i p s))) = map status (devices s)
 \<and> map manufacturer (devices (snd (editNetworkDevice i p s))) = map manufacturer (devices s)
 \<and> map connectionType (devices (snd (editNetworkDevice i p s))) = map connectionType (devices s)
 \<and> map dtype (devices (snd (editNetworkDevice i p s))) = map dtype (devices s)
 \<and> map rawDevice (devices (snd (editNetworkDevice i p s))) = map rawDevice (devices s)
 \<and> length (devices (snd (editNetworkDevice i p s))) = length (devices s)
 \<and> (\<forall>k<length (devices s). device_id (devices s ! k) \<noteq> i \<longrightarrow>
        devices (snd (editNetworkDevice i p s)) ! k = devices s ! k)
 \<and> dtype (fst (addNetworkDevice_timeout (p\<lparr>payload_port := 9100\<rparr>) s0)) = Printer"
proof -
  have a: "dtype (fst (addNetworkDevice_timeout (p\<lparr>payload_port := 9100\<rparr>) s0)) = Printer"
    by (simp add: addNetworkDevice_timeout_def Let_def)
  show ?thesis
    using a editNetworkDevice_keeps [of i p s] editNetworkDevice_length [of i p s]
      editNetworkDevice_others [of _ s i p]
    by simp
qed

text \<open>Claim C10, at a concrete input: the port of a scanner is edited to 9100. It keeps the
  type \<open>Scanner\<close>, while a device added with the same payload is a \<open>Printer\<close>.\<close>

theorem editNetworkDevice_frame_witness:
  "map dtype (devices (snd (editNetworkDevice ''net-10-0-0-7'' ex_payload_port ex_registry)))
     = [Printer, Printer, Scanner]
   \<and> map port (devices (snd (editNetworkDevice ''net-10-0-0-7'' ex_payload_port ex_registry)))
     = [None, Some 9100, Some 9100]
   \<and> dtype (fst (addNetworkDevice_timeout ex_payload_port ex_service)) = Printer"
proof -
  have p: "ex_payload_port\<lparr>payload_port := 9100\<rparr> = ex_payload_port" by (simp add: ex_payload_port_def)
  have t: "map dtype (devices ex_registry) = [Printer, Printer, Scanner]"
    by (simp add: ex_registry_def ex_usb_entry_def ex_net_entry_def ex_scanner_entry_def)
  have q: "map port (devices (snd (editNetworkDevice ''net-10-0-0-7'' ex_payload_port ex_registry)))
     = [None, Some 9100, Some 9100]"
    by (simp add: editNetworkDevice_def set_devices_def ex_registry_def ex_usb_entry_def
        ex_net_entry_def ex_scanner_entry_def ex_payload_port_def Let_def)
  from editNetworkDevice_frame [of "''net-10-0-0-7''" ex_payload_port ex_registry ex_service] t q
  show ?thesis unfolding p by simp
qed

text \<open>How the ids follow an accepted edit of an entry whose id is the derived one.\<close>

lemma edit_id_follows_address:
  assumes mem: "d \<in> set (devices s)"
    and addr: "ipAddress d = Some a"
    and derived: "device_id d = createNetworkDeviceId a"
    and free: "find (\<lambda>e. ipAddress e = Some (payload_ip p) \<and> device_id e \<noteq> device_id d) (devices s) = None"
  shows "device_id (fst (addNetworkDevice_timeout p s0)) = createNetworkDeviceId (payload_ip p)
       \<and> (payload_ip p = a \<longrightarrow>
            map device_id (devices (snd (editNetworkDevice (device_id d) p s))) = map device_id (devices s))
       \<and> (payload_ip p \<noteq> a \<and> ip_pattern a \<and> ip_pattern (payload_ip p) \<longrightarrow>
            createNetworkDeviceId (payload_ip p) \<noteq> device_id d
          \<and> device_id d \<notin> set (map device_id (devices (snd (editNetworkDevice (device_id d) p s))))
          \<and> createNetworkDeviceId (payload_ip p)
               \<in> set (map device_id (devices (snd (editNetworkDevice (device_id d) p s)))))"
proof -
  let ?i = "device_id d" and ?n = "createNetworkDeviceId (payload_ip p)"
  let ?f = "\<lambda>e. if device_id e = ?i then edited p e else e"
  have e: "devices (snd (editNetworkDevice ?i p s)) = map ?f (devices s)"
    using free by (simp add: editNetworkDevice_accepts set_devices_def)
  have 1: "device_id (fst (addNetworkDevice_timeout p s0)) = ?n"
    by (simp add: addNetworkDevice_timeout_def Let_def)
  have 2: "map device_id (map ?f (devices s)) = map device_id (devices s)" if "payload_ip p = a"
  proof -
    have "\<And>e. device_id (?f e) = device_id e" using that derived by (simp add: edited_def)
    then show ?thesis by simp
  qed
  have 3: "?n \<noteq> ?i \<and> ?i \<notin> set (map device_id (map ?f (devices s)))
         \<and> ?n \<in> set (map device_id (map ?f (devices s)))"
    if "payload_ip p \<noteq> a" "ip_pattern a" "ip_pattern (payload_ip p)"
  proof -
    have ne: "?n \<noteq> ?i" using that derived createNetworkDeviceId_valid_inj [of a "payload_ip p"] by auto
    have f_ne: "device_id (?f e) \<noteq> ?i" for e
      using ne by (cases "device_id e = ?i") (simp_all add: edited_def)
    have a: "?i \<notin> set (map device_id (map ?f (devices s)))"
    proof
      assume "?i \<in> set (map device_id (map ?f (devices s)))"
      then obtain e where "?i = device_id (?f e)"
        unfolding map_map set_map o_def by (rule imageE)
      then have "device_id (?f e) = ?i" by (rule sym)
      with f_ne [of e] show False by (rule notE)
    qed
    have "device_id (?f d) = ?n" by (simp add: edited_def)
    with mem have "\<exists>e\<in>set (devices s). device_id (?f e) = ?n" by (rule_tac x = d in bexI)
    then have b: "?n \<in> set (map device_id (map ?f (devices s)))" by (simp add: image_iff eq_commute)
    from ne a b show ?thesis by simp
  qed
  from 1 2 3 show ?thesis unfolding e by simp
qed

section \<open>Adding a network device\<close>

lemma executor_conflict:
  "entries_with_address (payload_ip p) (devices s) \<noteq> 0 \<Longrightarrow>
   addNetworkDevice_executor p s = Inl (JsError ''Device with this IP address already exists.'')"
proof -
  assume "entries_with_address (payload_ip p) (devices s) \<noteq> 0"
  then have "filter (\<lambda>d. ipAddress d = Some (payload_ip p)) (devices s) \<noteq> []"
    by (simp add: entries_with_address_def)
  then have "\<exists>d\<in>set (devices s). ipAddress d = Some (payload_ip p)"
    by (simp add: filter_empty_conv)
  then have "find (\<lambda>d. ipAddress d = Some (payload_ip p)) (devices s) \<noteq> None"
    by (auto simp: find_None_iff)
  then obtain x where "find (\<lambda>d. ipAddress d = Some (payload_ip p)) (devices s) = Some x"
    by (cases "find (\<lambda>d. ipAddress d = Some (payload_ip p)) (devices s)") simp_all
  then show ?thesis by (simp add: addNetworkDevice_executor_def)
qed

lemma executor_accepts:
  "entries_with_address (payload_ip p) (devices s) = 0 \<Longrightarrow> addNetworkDevice_executor p s = Inr ()"
proof -
  assume "entries_with_address (payload_ip p) (devices s) = 0"
  then have "\<forall>d\<in>set (devices s). ipAddress d \<noteq> Some (payload_ip p)"
    by (simp add: entries_with_address_def filter_empty_conv)
  then have "find (\<lambda>d. ipAddress d = Some (payload_ip p)) (devices s) = None"
    by (simp add: find_None_iff)
  then show ?thesis by (simp add: addNetworkDevice_executor_def)
qed

lemma timeout_count:
  "entries_with_address (payload_ip p) (devices (snd (addNetworkDevice_timeout p s)))
     = Suc (entries_with_address (payload_ip p) (devices s))"
  by (simp add: addNetworkDevice_timeout_def Let_def set_devices_def entries_with_address_def)

text \<open>Two calls made one right after the other, with one address that no entry holds: both
  resolve, and two entries hold the address afterwards.\<close>

lemma addNetworkDevice_twice_both:
  assumes "entries_with_address (payload_ip p) (devices s) = 0" and "payload_ip p' = payload_ip p"
  shows "fst (addNetworkDevice_twice p p' s) = Inr (fst (addNetworkDevice_timeout p s))
       \<and> fst (snd (addNetworkDevice_twice p p' s))
           = Inr (fst (addNetworkDevice_timeout p' (snd (addNetworkDevice_timeout p s))))
       \<and> entries_with_address (payload_ip p) (devices (snd (snd (addNetworkDevice_twice p p' s)))) = 2"
proof -
  have e1: "addNetworkDevice_executor p s = Inr ()" using assms(1) by (rule executor_accepts)
  have e2: "addNetworkDevice_executor p' s = Inr ()" using assms executor_accepts [of p' s] by simp
  have c: "entries_with_address (payload_ip p)
             (devices (snd (addNetworkDevice_timeout p' (snd (addNetworkDevice_timeout p s))))) = 2"
    using timeout_count [of p' "snd (addNetworkDevice_timeout p s)"] timeout_count [of p s] assms
    by simp
  show ?thesis using c by (simp add: addNetworkDevice_twice_def e1 e2 Let_def split_beta)
qed

lemma ex_net_entry_added: "fst (addNetworkDevice_timeout ex_payload s) = ex_net_entry"
  by (simp add: addNetworkDevice_timeout_def ex_payload_def ex_net_entry_def
      createNetworkDeviceId_def Let_def)

text \<open>Claim C3 fails when the second call is made right after the first, before the timer of
  1000 ms of the first has fired. On a service just constructed, with the starting
  values of the form as payload of both calls: both executors find the registry without
  the address, both calls resolve with the new device, and the registry ends with two
  entries that hold the address.\<close>

theorem addNetworkDevice_twice_duplicates:
  "fst (addNetworkDevice_twice ex_payload ex_payload ex_service) = Inr ex_net_entry
   \<and> fst (snd (addNetworkDevice_twice ex_payload ex_payload ex_service)) = Inr ex_net_entry
   \<and> devices (snd (snd (addNetworkDevice_twice ex_payload ex_payload ex_service)))
       = [ex_net_entry, ex_net_entry]
   \<and> entries_with_address ''192.168.1.150''
        (devices (snd (snd (addNetworkDevice_twice ex_payload ex_payload ex_service)))) = 2"
  by (simp add: addNetworkDevice_twice_def addNetworkDevice_executor_def addNetworkDevice_timeout_def
      ex_payload_def ex_service_def new_service_def ex_net_entry_def set_devices_def
      createNetworkDeviceId_def entries_with_address_def Let_def)

text \<open>Claim C3, amended: the second call is made once the first call has settled. Let the
  address of the payload be held by at most one entry. After an awaited first call of
  \<open>addNetworkDevice\<close>, a second call with the same address is rejected with the message
  \<open>Device with this IP address already exists.\<close> and leaves the state as it is, and
  exactly one entry holds the address. When no entry held the address, the first call
  resolved with the device its timer built.\<close>

theorem addNetworkDevice_resolved_then_conflict:
  assumes same: "payload_ip p2 = payload_ip p1"
    and atmost: "entries_with_address (payload_ip p1) (devices s) \<le> 1"
  shows "addNetworkDevice p2 (snd (addNetworkDevice p1 s))
           = (Inl (JsError ''Device with this IP address already exists.''), snd (addNetworkDevice p1 s))
       \<and> entries_with_address (payload_ip p1) (devices (snd (addNetworkDevice p1 s))) = 1
       \<and> (entries_with_address (payload_ip p1) (devices s) = 0 \<longrightarrow>
            addNetworkDevice p1 s = (Inr (fst (addNetworkDevice_timeout p1 s)),
                                     snd (addNetworkDevice_timeout p1 s)))"
proof (cases "entries_with_address (payload_ip p1) (devices s) = 0")
  case True
  then have e: "addNetworkDevice_executor p1 s = Inr ()" by (rule executor_accepts)
  then have r: "addNetworkDevice p1 s = (Inr (fst (addNetworkDevice_timeout p1 s)),
                                     snd (addNetworkDevice_timeout p1 s))"
    by (simp add: addNetworkDevice_def split_beta)
  have c: "entries_with_address (payload_ip p1) (devices (snd (addNetworkDevice p1 s))) = 1"
    using True by (simp add: r timeout_count)
  then have "entries_with_address (payload_ip p2) (devices (snd (addNetworkDevice p1 s))) \<noteq> 0"
    using same by simp
  then have "addNetworkDevice_executor p2 (snd (addNetworkDevice p1 s))
               = Inl (JsError ''Device with this IP address already exists.'')"
    by (rule executor_conflict)
  then show ?thesis using c r by (simp add: addNetworkDevice_def [of p2])
next
  case False
  then have e: "addNetworkDevice_executor p1 s = Inl (JsError ''Device with this IP address already exists.'')"
    by (rule executor_conflict)
  then have r: "snd (addNetworkDevice p1 s) = s" by (simp add: addNetworkDevice_def)
  from False same have "addNetworkDevice_executor p2 s = Inl (JsError ''Device with this IP address already exists.'')"
    using executor_conflict [of p2 s] by simp
  then show ?thesis using False atmost r by (simp add: addNetworkDevice_def [of p2])
qed

text \<open>Claim C3 as amended, at a concrete input: the starting values of the form are added
  twice, one call after the other, to a service just constructed.\<close>

theorem addNetworkDevice_resolved_then_conflict_witness:
  "entries_with_address (payload_ip ex_payload) (devices ex_service) \<le> 1
   \<and> addNetworkDevice ex_payload (snd (addNetworkDevice ex_payload ex_service))
       = (Inl (JsError ''Device with this IP address already exists.''),
          snd (addNetworkDevice ex_payload ex_service))
   \<and> entries_with_address (payload_ip ex_payload) (devices (snd (addNetworkDevice ex_payload ex_service))) = 1"
proof -
  have h: "entries_with_address (payload_ip ex_payload) (devices ex_service) \<le> 1"
    by (simp add: entries_with_address_def ex_service_def new_service_def)
  from h addNetworkDevice_resolved_then_conflict [OF refl h] show ?thesis by simp
qed

section \<open>Connecting and disconnecting\<close>

lemma with_status_ids: "map device_id (with_status i st ds) = map device_id ds"
  by (induction ds) (simp_all add: with_status_def)

lemma length_filter_map_same:
  "(\<And>x. P (f x) = P x) \<Longrightarrow> length (filter P (map f xs)) = length (filter P xs)"
  by (induction xs) simp_all

lemma with_status_count: "entries_with_id j (with_status i st ds) = entries_with_id j ds"
  unfolding entries_with_id_def with_status_def
  by (rule length_filter_map_same) simp

lemma with_status_find:
  "find (\<lambda>e. device_id e = i) (with_status i st ds)
     = map_option (\<lambda>d. d\<lparr>status := st\<rparr>) (find (\<lambda>e. device_id e = i) ds)"
  by (induction ds) (simp_all add: with_status_def)

lemma with_status_sets:
  assumes "e \<in> set (with_status i st ds)" and "device_id e = i"
  shows "status e = st"
proof -
  from assms(1) obtain x where "e = (if device_id x = i then x\<lparr>status := st\<rparr> else x)"
    unfolding with_status_def set_map by (rule imageE)
  with assms(2) show ?thesis by (cases "device_id x = i") simp_all
qed

lemma with_status_others:
  "e \<in> set ds \<Longrightarrow> device_id e \<noteq> i \<Longrightarrow> e \<in> set (with_status i st ds)"
  by (induction ds) (auto simp: with_status_def)

lemma connectDevice_try_fails:
  assumes "hw_open api (usb s h) = Inl msg \<or>
           (\<exists>u1 v. hw_open api (usb s h) = Inr u1 \<and> configuration_to_select u1 = Some v
                    \<and> hw_selectConfiguration api v u1 = Inl msg)"
  shows "fst (connectDevice_try api i h s) = Some msg
       \<and> devices (snd (connectDevice_try api i h s)) = devices s
       \<and> emitted (snd (connectDevice_try api i h s)) = emitted s"
  using assms by (auto simp: connectDevice_try_def Let_def put_usb_def)

text \<open>Claim C4 (a failed connect). Let the lookup of the id find a USB entry \<open>d\<close> with a
  hardware reference \<open>h\<close>, the only entry with that id, and let \<open>open()\<close> be rejected with
  message \<open>msg\<close>, or let \<open>open()\<close> resolve and the \<open>selectConfiguration\<close> that follows be
  rejected with \<open>msg\<close>. Then \<open>connectDevice\<close> is rejected with an error whose message
  contains \<open>msg\<close>; the registry is the one before with the status of the entries of that
  id set to \<open>Error\<close>; a lookup of the id finds \<open>d\<close> with status \<open>Error\<close>; the list of ids is
  unchanged, and exactly one entry has the id. Whatever registry \<open>s'\<close> the \<open>catch\<close> block
  meets, it keeps the list of ids and leaves every entry of that id with status
  \<open>Error\<close>.\<close>

theorem connectDevice_failure:
  assumes found: "find (\<lambda>e. device_id e = i) (devices s) = Some d"
    and usbd: "connectionType d = USB"
    and raw: "rawDevice d = Some h"
    and uniq: "entries_with_id i (devices s) = 1"
    and fails: "hw_open api (usb s h) = Inl msg \<or>
           (\<exists>u1 v. hw_open api (usb s h) = Inr u1 \<and> configuration_to_select u1 = Some v
                    \<and> hw_selectConfiguration api v u1 = Inl msg)"
  shows "fst (connectDevice api i s)
           = Inl (JsError (''Connection failed: '' @ msg
                            @ ''. The device might be in use by another application.''))
       \<and> devices (snd (connectDevice api i s)) = with_status i Error (devices s)
       \<and> find (\<lambda>e. device_id e = i) (devices (snd (connectDevice api i s))) = Some (d\<lparr>status := Error\<rparr>)
       \<and> (\<forall>e\<in>set (devices (snd (connectDevice api i s))). device_id e = i \<longrightarrow> status e = Error)
       \<and> map device_id (devices (snd (connectDevice api i s))) = map device_id (devices s)
       \<and> entries_with_id i (devices (snd (connectDevice api i s))) = 1
       \<and> map device_id (devices (snd (connectDevice_catch i msg s'))) = map device_id (devices s')
       \<and> (\<forall>e\<in>set (devices (snd (connectDevice_catch i msg s'))). device_id e = i \<longrightarrow> status e = Error)"
proof -
  obtain m s1 where t: "connectDevice_try api i h s = (m, s1)" by (cases "connectDevice_try api i h s")
  with connectDevice_try_fails [OF fails, of i] have m: "m = Some msg" and d1: "devices s1 = devices s"
    by simp_all
  have c: "connectDevice api i s = connectDevice_catch i msg s1"
    using found usbd raw t m by (simp add: connectDevice_def)
  have r: "fst (connectDevice api i s)
           = Inl (JsError (''Connection failed: '' @ msg
                            @ ''. The device might be in use by another application.''))"
    by (simp add: c connectDevice_catch_def Let_def)
  have ds: "devices (snd (connectDevice api i s)) = with_status i Error (devices s)"
    by (simp add: c connectDevice_catch_def Let_def set_devices_def console_write_def d1)
  have f: "find (\<lambda>e. device_id e = i) (devices (snd (connectDevice api i s))) = Some (d\<lparr>status := Error\<rparr>)"
    using found by (simp add: ds with_status_find)
  have a: "\<forall>e\<in>set (devices (snd (connectDevice api i s))). device_id e = i \<longrightarrow> status e = Error"
    unfolding ds using with_status_sets by blast
  have m: "map device_id (devices (snd (connectDevice api i s))) = map device_id (devices s)"
    by (simp add: ds with_status_ids)
  have n: "entries_with_id i (devices (snd (connectDevice api i s))) = 1"
    using uniq by (simp add: ds with_status_count)
  have cds: "devices (snd (connectDevice_catch i msg s')) = with_status i Error (devices s')"
    by (simp add: connectDevice_catch_def Let_def set_devices_def console_write_def)
  have cm: "map device_id (devices (snd (connectDevice_catch i msg s'))) = map device_id (devices s')"
    by (simp add: cds with_status_ids)
  have ca: "\<forall>e\<in>set (devices (snd (connectDevice_catch i msg s'))). device_id e = i \<longrightarrow> status e = Error"
    unfolding cds using with_status_sets by blast
  from r ds f a m n cm ca show ?thesis by simp
qed

text \<open>Claim C4, at two concrete inputs: a USB printer whose \<open>open()\<close> is rejected, and one
  that opens, has no active configuration and rejects \<open>selectConfiguration\<close>.\<close>

theorem connectDevice_failure_witness:
  "fst (connectDevice ex_api_open_fails ''usb-1008-42-0'' ex_registry)
     = Inl (JsError ''Connection failed: Access denied. The device might be in use by another application.'')
   \<and> map status (devices (snd (connectDevice ex_api_open_fails ''usb-1008-42-0'' ex_registry)))
       = [Error, Ready, Ready]
   \<and> entries_with_id ''usb-1008-42-0''
        (devices (snd (connectDevice ex_api_open_fails ''usb-1008-42-0'' ex_registry))) = 1
   \<and> fst (connectDevice ex_api_select_fails ''usb-1008-42-0'' ex_registry)
     = Inl (JsError ''Connection failed: Unable to set device configuration. The device might be in use by another application.'')
   \<and> map status (devices (snd (connectDevice ex_api_select_fails ''usb-1008-42-0'' ex_registry)))
       = [Error, Ready, Ready]"
proof -
  have f: "find (\<lambda>e. device_id e = ''usb-1008-42-0'') (devices ex_registry) = Some ex_usb_entry"
    by (simp add: ex_registry_def ex_usb_entry_def)
  have u: "connectionType ex_usb_entry = USB" and r: "rawDevice ex_usb_entry = Some 0"
    by (simp_all add: ex_usb_entry_def)
  have n: "entries_with_id ''usb-1008-42-0'' (devices ex_registry) = 1"
    by (simp add: entries_with_id_def ex_registry_def ex_usb_entry_def ex_net_entry_def ex_scanner_entry_def)
  have o: "hw_open ex_api_open_fails (usb ex_registry 0) = Inl ''Access denied'' \<or>
           (\<exists>u1 v. hw_open ex_api_open_fails (usb ex_registry 0) = Inr u1 \<and> configuration_to_select u1 = Some v
                    \<and> hw_selectConfiguration ex_api_open_fails v u1 = Inl ''Access denied'')"
    by (simp add: ex_api_open_fails_def)
  have c: "hw_open ex_api_select_fails (usb ex_registry 0) = Inl ''Unable to set device configuration'' \<or>
           (\<exists>u1 v. hw_open ex_api_select_fails (usb ex_registry 0) = Inr u1 \<and> configuration_to_select u1 = Some v
                    \<and> hw_selectConfiguration ex_api_select_fails v u1 = Inl ''Unable to set device configuration'')"
    by (simp add: ex_api_select_fails_def ex_registry_def ex_objs_def ex_usb_def ex_config_def
        configuration_to_select_def)
  have w: "map status (with_status ''usb-1008-42-0'' Error (devices ex_registry)) = [Error, Ready, Ready]"
    by (simp add: with_status_def ex_registry_def ex_usb_entry_def ex_net_entry_def ex_scanner_entry_def)
  from connectDevice_failure [OF f u r n o] connectDevice_failure [OF f u r n c] w n
  show ?thesis by (simp add: with_status_count)
qed

text \<open>Claim C8 fails on an open USB device whose active configuration has an interface and
  whose \<open>releaseInterface\<close> is rejected, although \<open>close()\<close> would succeed: the call is
  rejected with \<open>Failed to disconnect cleanly.\<close>, the status of the entry becomes \<open>Error\<close>,
  not \<open>Ready\<close>, and the device stays open.\<close>

theorem disconnectDevice_release_failure_surfaces:
  "fst (disconnectDevice ex_api_release_fails ''usb-1008-42-0'' ex_registry_opened)
     = Inl (JsError ''Failed to disconnect cleanly.'')
   \<and> map status (devices (snd (disconnectDevice ex_api_release_fails ''usb-1008-42-0'' ex_registry_opened)))
       = [Error, Ready]
   \<and> opened (usb (snd (disconnectDevice ex_api_release_fails ''usb-1008-42-0'' ex_registry_opened)) 0)"
  by (simp add: disconnectDevice_def disconnectDevice_try_def disconnectDevice_catch_def
      interface_to_release_def ex_api_release_fails_def ex_registry_opened_def ex_objs_opened_def
      ex_usb_opened_def ex_usb_def ex_config_def ex_usb_entry_def ex_net_entry_def
      with_status_def set_devices_def console_write_def Let_def)

text \<open>Claim C8, amended: a rejected \<open>releaseInterface\<close> ends the disconnect. Let the lookup of
  the id find a USB entry with a hardware reference to an open device whose active
  configuration has a first interface, and let \<open>releaseInterface\<close> of that interface be
  rejected. Then \<open>disconnectDevice\<close> is rejected with \<open>Failed to disconnect cleanly.\<close>; the
  status of the entries of that id is set to \<open>Error\<close> in a single update; the failure is
  written to the console; \<open>close()\<close> is not called, so that the device objects are as
  they were and the device is still open.\<close>

theorem disconnectDevice_release_failure:
  assumes found: "find (\<lambda>e. device_id e = i) (devices s) = Some d"
    and usbd: "connectionType d = USB"
    and raw: "rawDevice d = Some h"
    and isopen: "opened (usb s h)"
    and iface: "interface_to_release (usb s h) = Some n"
    and fails: "hw_releaseInterface api n (usb s h) = Inl msg"
  shows "disconnectDevice api i s =
           (Inl (JsError ''Failed to disconnect cleanly.''),
            s\<lparr>devices := with_status i Error (devices s),
              emitted := emitted s @ [with_status i Error (devices s)],
              console := console s @ [''Failed to disconnect device: '' @ msg]\<rparr>)
       \<and> usb (snd (disconnectDevice api i s)) = usb s
       \<and> opened (usb (snd (disconnectDevice api i s)) h)
       \<and> find (\<lambda>e. device_id e = i) (devices (snd (disconnectDevice api i s))) = Some (d\<lparr>status := Error\<rparr>)"
proof -
  have t: "disconnectDevice_try api i h s = (Some msg, s)"
    using iface fails by (simp add: disconnectDevice_try_def)
  have c: "disconnectDevice api i s = disconnectDevice_catch i msg s"
    using found usbd raw isopen t by (simp add: disconnectDevice_def)
  show ?thesis
    using isopen found
    by (simp add: c disconnectDevice_catch_def Let_def set_devices_def console_write_def with_status_find)
qed

text \<open>Claim C8 as amended, at a concrete input: the open printer of the counterexample.\<close>

theorem disconnectDevice_release_failure_witness:
  "disconnectDevice ex_api_release_fails ''usb-1008-42-0'' ex_registry_opened =
     (Inl (JsError ''Failed to disconnect cleanly.''),
      ex_registry_opened
        \<lparr>devices := with_status ''usb-1008-42-0'' Error (devices ex_registry_opened),
          emitted := emitted ex_registry_opened
                       @ [with_status ''usb-1008-42-0'' Error (devices ex_registry_opened)],
          console := console ex_registry_opened
                       @ [''Failed to disconnect device: '' @ ''Interface not claimed'']\<rparr>)
   \<and> opened (usb (snd (disconnectDevice ex_api_release_fails ''usb-1008-42-0'' ex_registry_opened)) 0)"
proof -
  have f: "find (\<lambda>e. device_id e = ''usb-1008-42-0'') (devices ex_registry_opened)
             = Some (ex_usb_entry\<lparr>status := Connected\<rparr>)"
    by (simp add: ex_registry_opened_def ex_usb_entry_def)
  have u: "connectionType (ex_usb_entry\<lparr>status := Connected\<rparr>) = USB"
    and r: "rawDevice (ex_usb_entry\<lparr>status := Connected\<rparr>) = Some 0"
    by (simp_all add: ex_usb_entry_def)
  have o: "opened (usb ex_registry_opened 0)"
    by (simp add: ex_registry_opened_def ex_objs_opened_def ex_usb_opened_def)
  have i: "interface_to_release (usb ex_registry_opened 0) = Some 0"
    by (simp add: interface_to_release_def ex_registry_opened_def ex_objs_opened_def
        ex_usb_opened_def ex_config_def)
  have x: "hw_releaseInterface ex_api_release_fails 0 (usb ex_registry_opened 0) = Inl ''Interface not claimed''"
    by (simp add: ex_api_release_fails_def)
  from o disconnectDevice_release_failure [OF f u r o i x] show ?thesis by simp
qed

text \<open>The one step of the disconnect that may be left out without an error: when there is no
  active configuration, or it has no interface, nothing is released and the device is
  closed.\<close>

lemma disconnectDevice_without_interface:
  assumes found: "find (\<lambda>e. device_id e = i) (devices s) = Some d"
    and usbd: "connectionType d = USB"
    and raw: "rawDevice d = Some h"
    and isopen: "opened (usb s h)"
    and iface: "interface_to_release (usb s h) = None"
    and closes: "hw_close api (usb s h) = Inr u"
  shows "disconnectDevice api i s =
           (Inr (), s\<lparr>devices := with_status i Ready (devices s),
              emitted := emitted s @ [with_status i Ready (devices s)],
              usb := (usb s)(h := u)\<rparr>)"
proof -
  have t: "disconnectDevice_try api i h s = (None, set_devices (with_status i Ready (devices s)) (put_usb h u s))"
    using iface closes by (simp add: disconnectDevice_try_def disconnectDevice_close_def Let_def put_usb_def)
  show ?thesis
    using found usbd raw isopen t
    by (simp add: disconnectDevice_def set_devices_def put_usb_def)
qed

section \<open>The status of network devices\<close>

text \<open>The form is in edit mode only for a network device.\<close>

lemma openDeviceModal_edits_network_only:
  "editingDevice (openDeviceModal device m) = Some d \<Longrightarrow> device = Some d \<and> connectionType d = Network"
  by (cases device) (simp_all add: openDeviceModal_def Let_def split: if_splits)

lemma usb_not_net: "starts_with x ''usb-'' \<Longrightarrow> starts_with x ''net-'' \<Longrightarrow> False"
  by (cases x) simp_all

lemma entry_ok_usb: "entry_ok (mapUSBDeviceToDevice objs h)"
  by (simp add: entry_ok_def mapUSBDeviceToDevice_def createDeviceId_def Let_def)

lemma entry_ok_status:
  "entry_ok d \<Longrightarrow> connectionType d = USB \<Longrightarrow> entry_ok (d\<lparr>status := st\<rparr>)"
  by (simp add: entry_ok_def)

lemma entry_ok_edited:
  "entry_ok d \<Longrightarrow> connectionType d = Network \<Longrightarrow> entry_ok (edited p d)"
  by (simp add: entry_ok_def edited_def createNetworkDeviceId_def)

lemma network_ready_handleConnect: "network_ready (devices s) \<Longrightarrow> network_ready (devices (handleConnect h s))"
  by (simp add: network_ready_def handleConnect_def set_devices_def Let_def entry_ok_usb)

lemma network_ready_handleDisconnect:
  "network_ready (devices s) \<Longrightarrow> network_ready (devices (handleDisconnect h s))"
  by (simp add: network_ready_def handleDisconnect_def set_devices_def Let_def list_all_iff)

lemma network_ready_load:
  "network_ready (devices s) \<Longrightarrow> network_ready (devices (loadPreviouslyPermittedDevices hs s))"
  by (auto simp: network_ready_def loadPreviouslyPermittedDevices_def set_devices_def Let_def
      list_all_iff entry_ok_usb)

lemma network_ready_scan:
  "network_ready (devices s) \<Longrightarrow> network_ready (devices (scanForUsbDevices r s))"
  by (cases r) (simp_all add: scanForUsbDevices_def network_ready_handleConnect console_write_def)

lemma network_ready_add:
  "network_ready (devices s) \<Longrightarrow> network_ready (devices (snd (addNetworkDevice_timeout p s)))"
  by (simp add: network_ready_def addNetworkDevice_timeout_def set_devices_def Let_def entry_ok_def
      createNetworkDeviceId_def)

lemma same_id_same_transport:
  assumes "entry_ok d" and "entry_ok e" and "device_id e = device_id d"
  shows "connectionType e = connectionType d"
proof (cases "connectionType d"; cases "connectionType e")
  assume "connectionType d = USB" "connectionType e = Network"
  with assms have "starts_with (device_id d) ''usb-''" "starts_with (device_id d) ''net-''"
    by (simp_all add: entry_ok_def)
  then show ?thesis by (rule usb_not_net [THEN FalseE])
next
  assume "connectionType d = Network" "connectionType e = USB"
  with assms have "starts_with (device_id d) ''usb-''" "starts_with (device_id d) ''net-''"
    by (simp_all add: entry_ok_def)
  then show ?thesis by (rule usb_not_net [THEN FalseE])
qed simp_all

lemma find_SomeD: "find P xs = Some x \<Longrightarrow> x \<in> set xs \<and> P x"
  by (induction xs) (auto split: if_splits)

lemma network_ready_map:
  assumes inv: "network_ready ds"
    and found: "find (\<lambda>e. device_id e = i) ds = Some d"
    and f: "\<And>e. entry_ok e \<Longrightarrow> connectionType e = connectionType d \<Longrightarrow> entry_ok (f e)"
  shows "network_ready (map (\<lambda>e. if device_id e = i then f e else e) ds)"
proof -
  from found have d: "d \<in> set ds" "device_id d = i" using find_SomeD [of "\<lambda>e. device_id e = i" ds d] by simp_all
  from inv d(1) have dok: "entry_ok d" by (simp add: network_ready_def list_all_iff)
  have ok: "entry_ok (if device_id e = i then f e else e)" if "e \<in> set ds" for e
  proof (cases "device_id e = i")
    case True
    from inv that have eok: "entry_ok e" by (simp add: network_ready_def list_all_iff)
    with dok True d(2) have "connectionType e = connectionType d"
      using same_id_same_transport [of d e] by simp
    with eok have "entry_ok (f e)" by (rule f)
    with True show ?thesis by simp
  next
    case False
    with inv that show ?thesis by (simp add: network_ready_def list_all_iff)
  qed
  show ?thesis unfolding network_ready_def list_all_iff
  proof
    fix x assume "x \<in> set (map (\<lambda>e. if device_id e = i then f e else e) ds)"
    then obtain e where "x = (if device_id e = i then f e else e)" and "e \<in> set ds"
      unfolding set_map by (rule imageE)
    then show "entry_ok x" using ok [of e] by simp
  qed
qed

lemma map_edit_absent:
  "find (\<lambda>e. device_id e = i) ds = None \<Longrightarrow> map (\<lambda>e. if device_id e = i then f e else e) ds = ds"
  by (induction ds) (simp_all split: if_splits)

lemma network_ready_edit:
  assumes inv: "network_ready (devices s)" and en: "enabled (EditNetwork i p) s"
  shows "network_ready (devices (snd (editNetworkDevice i p s)))"
proof -
  from edit_devices [of i p s] show ?thesis
  proof
    assume "devices (snd (editNetworkDevice i p s)) = devices s"
    with inv show ?thesis by simp
  next
    assume e: "devices (snd (editNetworkDevice i p s))
                 = map (\<lambda>e. if device_id e = i then edited p e else e) (devices s)"
    show ?thesis
    proof (cases "find (\<lambda>e. device_id e = i) (devices s)")
      case None
      then show ?thesis unfolding e using inv by (simp add: map_edit_absent)
    next
      case (Some d)
      with en have net: "connectionType d = Network" by simp
      show ?thesis unfolding e using inv Some
      proof (rule network_ready_map)
        fix e assume "entry_ok e" "connectionType e = connectionType d"
        with net show "entry_ok (edited p e)" by (simp add: entry_ok_edited)
      qed
    qed
  qed
qed

lemma network_ready_with_status:
  assumes inv: "network_ready ds"
    and found: "find (\<lambda>e. device_id e = i) ds = Some d"
    and usbd: "connectionType d = USB"
  shows "network_ready (with_status i st ds)"
  unfolding with_status_def using inv found
proof (rule network_ready_map)
  fix e assume "entry_ok e" "connectionType e = connectionType d"
  with usbd show "entry_ok (e\<lparr>status := st\<rparr>)" by (simp add: entry_ok_status)
qed

lemma connectDevice_try_devices:
  "devices (snd (connectDevice_try api i h s)) = devices s \<or>
   devices (snd (connectDevice_try api i h s)) = with_status i Connected (devices s)"
  by (simp add: connectDevice_try_def Let_def put_usb_def set_devices_def
      split: sum.splits option.splits)

lemma connectDevice_devices:
  "devices (snd (connectDevice api i s)) = devices s \<or>
   (\<exists>d st. find (\<lambda>e. device_id e = i) (devices s) = Some d \<and> connectionType d = USB
      \<and> devices (snd (connectDevice api i s)) = with_status i st (devices s))"
proof (cases "find (\<lambda>e. device_id e = i) (devices s)")
  case None
  then show ?thesis by (simp add: connectDevice_def)
next
  case (Some d)
  show ?thesis
  proof (cases "connectionType d")
    case Network
    with Some show ?thesis by (simp add: connectDevice_def console_write_def)
  next
    case USB
    show ?thesis
    proof (cases "rawDevice d")
      case None
      with Some USB show ?thesis by (simp add: connectDevice_def console_write_def)
    next
      case (Some h)
      obtain m s1 where t: "connectDevice_try api i h s = (m, s1)"
        by (cases "connectDevice_try api i h s")
      show ?thesis
      proof (cases m)
        case None
        with t \<open>find (\<lambda>e. device_id e = i) (devices s) = Some d\<close> USB Some
        have "connectDevice api i s = (Inr (), s1)" by (simp add: connectDevice_def)
        with t connectDevice_try_devices [of api i h s] \<open>find (\<lambda>e. device_id e = i) (devices s) = Some d\<close> USB
        show ?thesis by auto
      next
        case (Some msg)
        with t have "fst (connectDevice_try api i h s) = Some msg" by simp
        then have "devices s1 = devices s"
          using t by (auto simp: connectDevice_try_def Let_def put_usb_def split: sum.splits option.splits)
        moreover have "connectDevice api i s = connectDevice_catch i msg s1"
          using t \<open>find (\<lambda>e. device_id e = i) (devices s) = Some d\<close> USB \<open>rawDevice d = Some h\<close> Some
          by (simp add: connectDevice_def)
        ultimately have "devices (snd (connectDevice api i s)) = with_status i Error (devices s)"
          by (simp add: connectDevice_catch_def Let_def set_devices_def console_write_def)
        with \<open>find (\<lambda>e. device_id e = i) (devices s) = Some d\<close> USB show ?thesis by blast
      qed
    qed
  qed
qed

lemma disconnectDevice_close_devices:
  "(fst (disconnectDevice_close api i h s) = None
      \<and> devices (snd (disconnectDevice_close api i h s)) = with_status i Ready (devices s))
   \<or> (\<exists>msg. fst (disconnectDevice_close api i h s) = Some msg
      \<and> devices (snd (disconnectDevice_close api i h s)) = devices s)"
  by (simp add: disconnectDevice_close_def Let_def put_usb_def set_devices_def split: sum.splits)

lemma disconnectDevice_try_devices:
  "(fst (disconnectDevice_try api i h s) = None
      \<and> devices (snd (disconnectDevice_try api i h s)) = with_status i Ready (devices s))
   \<or> (\<exists>msg. fst (disconnectDevice_try api i h s) = Some msg
      \<and> devices (snd (disconnectDevice_try api i h s)) = devices s)"
proof (cases "interface_to_release (usb s h)")
  case None
  then show ?thesis using disconnectDevice_close_devices [of api i h s]
    by (simp add: disconnectDevice_try_def)
next
  case (Some n)
  show ?thesis
  proof (cases "hw_releaseInterface api n (usb s h)")
    case (Inl msg)
    with Some show ?thesis by (simp add: disconnectDevice_try_def)
  next
    case (Inr u)
    with Some show ?thesis using disconnectDevice_close_devices [of api i h "put_usb h u s"]
      by (simp add: disconnectDevice_try_def put_usb_def)
  qed
qed

lemma disconnectDevice_devices:
  "devices (snd (disconnectDevice api i s)) = devices s \<or>
   (\<exists>d st. find (\<lambda>e. device_id e = i) (devices s) = Some d \<and> connectionType d = USB
      \<and> devices (snd (disconnectDevice api i s)) = with_status i st (devices s))"
proof (cases "find (\<lambda>e. device_id e = i) (devices s)")
  case None
  then show ?thesis by (simp add: disconnectDevice_def)
next
  case found: (Some d)
  show ?thesis
  proof (cases "connectionType d")
    case Network
    with found show ?thesis by (simp add: disconnectDevice_def)
  next
    case USB
    show ?thesis
    proof (cases "rawDevice d")
      case None
      with found USB show ?thesis by (simp add: disconnectDevice_def)
    next
      case (Some h)
      show ?thesis
      proof (cases "opened (usb s h)")
        case False
        with found USB Some show ?thesis by (simp add: disconnectDevice_def)
      next
        case True
        obtain m s1 where t: "disconnectDevice_try api i h s = (m, s1)"
          by (cases "disconnectDevice_try api i h s")
        from disconnectDevice_try_devices [of api i h s] t
        have c: "(m = None \<and> devices s1 = with_status i Ready (devices s))
                 \<or> (\<exists>msg. m = Some msg \<and> devices s1 = devices s)" by simp
        show ?thesis
        proof (cases m)
          case None
          with c have "devices s1 = with_status i Ready (devices s)" by simp
          moreover have "disconnectDevice api i s = (Inr (), s1)"
            using found USB Some True t None by (simp add: disconnectDevice_def)
          ultimately have "devices (snd (disconnectDevice api i s)) = with_status i Ready (devices s)"
            by simp
          with found USB show ?thesis by blast
        next
          case m: (Some msg)
          with c have "devices s1 = devices s" by simp
          moreover have "disconnectDevice api i s = disconnectDevice_catch i msg s1"
            using found USB Some True t m by (simp add: disconnectDevice_def)
          ultimately have "devices (snd (disconnectDevice api i s)) = with_status i Error (devices s)"
            by (simp add: disconnectDevice_catch_def Let_def set_devices_def console_write_def)
          with found USB show ?thesis by blast
        qed
      qed
    qed
  qed
qed

lemma network_ready_connect:
  "network_ready (devices s) \<Longrightarrow> network_ready (devices (snd (connectDevice api i s)))"
  using connectDevice_devices [of api i s] by (auto simp: network_ready_with_status)

lemma network_ready_disconnect:
  "network_ready (devices s) \<Longrightarrow> network_ready (devices (snd (disconnectDevice api i s)))"
  using disconnectDevice_devices [of api i s] by (auto simp: network_ready_with_status)

lemma step_network_ready:
  "network_ready (devices s) \<Longrightarrow> enabled ev s \<Longrightarrow> network_ready (devices (step ev s))"
proof (cases ev)
  case (EditNetwork i p)
  assume "network_ready (devices s)" "enabled ev s"
  with EditNetwork show ?thesis using network_ready_edit [of s i p] by simp
qed (simp_all add: network_ready_handleConnect network_ready_handleDisconnect network_ready_load
       network_ready_scan network_ready_add network_ready_connect network_ready_disconnect)

lemma run_network_ready:
  "network_ready (devices s) \<Longrightarrow> run evs s = Some s' \<Longrightarrow> network_ready (devices s')"
proof (induction evs arbitrary: s)
  case Nil
  then show ?case by simp
next
  case (Cons ev evs)
  from Cons.prems(2) have en: "enabled ev s" and r: "run evs (step ev s) = Some s'"
    by (simp_all split: if_splits)
  from Cons.prems(1) en have "network_ready (devices (step ev s))" by (rule step_network_ready)
  then show ?case using r by (rule Cons.IH)
qed

lemma network_ready_new: "network_ready (devices (new_service objs))"
  by (simp add: network_ready_def new_service_def)

lemma network_ready_find:
  assumes inv: "network_ready ds" and mem: "d \<in> set ds" and net: "connectionType d = Network"
  shows "\<exists>e. find (\<lambda>e. device_id e = device_id d) ds = Some e \<and> connectionType e = Network"
proof (cases "find (\<lambda>e. device_id e = device_id d) ds")
  case None
  then have "\<forall>x\<in>set ds. device_id x \<noteq> device_id d" by (simp add: find_None_iff)
  with mem show ?thesis by blast
next
  case (Some e)
  then have e: "e \<in> set ds" "device_id e = device_id d"
    using find_SomeD [of "\<lambda>e. device_id e = device_id d" ds e] by simp_all
  from inv mem e(1) have "entry_ok d" "entry_ok e" by (simp_all add: network_ready_def list_all_iff)
  with e(2) net have "connectionType e = Network" using same_id_same_transport [of d e] by simp
  with Some show ?thesis by simp
qed

text \<open>Claim C5 (a network device is \<open>Ready\<close> all its life). Let \<open>s\<close> be the state of the service
  after any sequence of events from its construction, an edit being issued only for the
  id of a network entry or for an id that is absent, and let \<open>d\<close> be a network entry of
  its registry. Then the status of \<open>d\<close> is \<open>Ready\<close>. Part by part: the device that the timer of
  \<open>addNetworkDevice\<close> builds is a network device with status \<open>Ready\<close>; \<open>editNetworkDevice\<close>
  keeps the status and the connection type of every entry; \<open>connectDevice\<close> on the id of
  \<open>d\<close> resolves and changes nothing but the console, where it writes one line;
  \<open>disconnectDevice\<close> on the id of \<open>d\<close> resolves and changes nothing at all.\<close>

theorem network_device_always_ready:
  assumes reach: "run evs (new_service objs) = Some s"
    and mem: "d \<in> set (devices s)"
    and net: "connectionType d = Network"
  shows "status d = Ready
       \<and> status (fst (addNetworkDevice_timeout p s0)) = Ready
       \<and> connectionType (fst (addNetworkDevice_timeout p s0)) = Network
       \<and> map status (devices (snd (editNetworkDevice j p s))) = map status (devices s)
       \<and> map connectionType (devices (snd (editNetworkDevice j p s))) = map connectionType (devices s)
       \<and> connectDevice api (device_id d) s
           = (Inr (), s\<lparr>console := console s @ [''Connect action is only for USB devices.'']\<rparr>)
       \<and> disconnectDevice api (device_id d) s = (Inr (), s)"
proof -
  have inv: "network_ready (devices s)"
    using network_ready_new reach by (rule run_network_ready)
  with mem have "entry_ok d" by (simp add: network_ready_def list_all_iff)
  with net have r: "status d = Ready" by (simp add: entry_ok_def)
  from network_ready_find [OF inv mem net] obtain e where
    found: "find (\<lambda>e. device_id e = device_id d) (devices s) = Some e" and enet: "connectionType e = Network"
    by blast
  have a: "status (fst (addNetworkDevice_timeout p s0)) = Ready
       \<and> connectionType (fst (addNetworkDevice_timeout p s0)) = Network"
    by (simp add: addNetworkDevice_timeout_def Let_def)
  have c: "connectDevice api (device_id d) s
           = (Inr (), s\<lparr>console := console s @ [''Connect action is only for USB devices.'']\<rparr>)"
    using found enet by (simp add: connectDevice_def console_write_def split: option.splits)
  have dc: "disconnectDevice api (device_id d) s = (Inr (), s)"
    using found enet by (simp add: disconnectDevice_def split: option.splits)
  from r a c dc editNetworkDevice_keeps(1,3) [of j p s] show ?thesis by simp
qed

text \<open>Claim C5, at a concrete input: a network device is added to a service just
  constructed, and a connect is tried on it.\<close>

theorem network_device_always_ready_witness:
  "run [AddTimeout ex_payload, ConnectAction ex_api_open_fails ''net-192-168-1-150''] (new_service ex_objs)
     = Some ex_after_add
   \<and> ex_net_entry \<in> set (devices ex_after_add)
   \<and> connectionType ex_net_entry = Network
   \<and> status ex_net_entry = Ready
   \<and> connectDevice ex_api_open_fails ''net-192-168-1-150'' ex_after_add
       = (Inr (), ex_after_add\<lparr>console := console ex_after_add
                                  @ [''Connect action is only for USB devices.'']\<rparr>)
   \<and> disconnectDevice ex_api_open_fails ''net-192-168-1-150'' ex_after_add = (Inr (), ex_after_add)"
proof -
  have r: "run [AddTimeout ex_payload, ConnectAction ex_api_open_fails ''net-192-168-1-150'']
             (new_service ex_objs) = Some ex_after_add"
    by (simp add: addNetworkDevice_timeout_def connectDevice_def console_write_def set_devices_def
        new_service_def ex_payload_def ex_after_add_def ex_net_entry_def createNetworkDeviceId_def
        Let_def)
  have m: "ex_net_entry \<in> set (devices ex_after_add)" by (simp add: ex_after_add_def)
  have n: "connectionType ex_net_entry = Network" by (simp add: ex_net_entry_def)
  have i: "device_id ex_net_entry = ''net-192-168-1-150''" by (simp add: ex_net_entry_def)
  from r m n network_device_always_ready [OF r m n, of ex_payload ex_service "''x''" ex_api_open_fails]
  show ?thesis unfolding i by simp
qed

section \<open>Derived ids in reachable states\<close>

text \<open>That every id of the registry is the derived one holds in every state the service
  reaches from its construction when the payloads of its add and edit events carry
  addresses that pass the pattern of the form.\<close>

lemma ids_derived_iff: "ids_derived ds \<longleftrightarrow> (\<forall>d\<in>set ds. derived_entry d)"
  by (simp add: ids_derived_def list_all_iff)

lemma derived_entry_usb: "derived_entry (mapUSBDeviceToDevice objs h)"
  by (simp add: derived_entry_def mapUSBDeviceToDevice_def createDeviceId_def Let_def)

lemma derived_entry_status: "derived_entry d \<Longrightarrow> derived_entry (d\<lparr>status := st\<rparr>)"
  by (cases "connectionType d"; cases "ipAddress d"; simp add: derived_entry_def)

lemma derived_entry_edited:
  "ip_pattern (payload_ip p) \<Longrightarrow> connectionType d = Network \<Longrightarrow> derived_entry (edited p d)"
  by (simp add: derived_entry_def edited_def)

lemma derived_entry_net_id:
  "derived_entry d \<Longrightarrow> connectionType d = Network \<Longrightarrow> starts_with (device_id d) ''net-''"
  by (cases "ipAddress d"; simp add: derived_entry_def createNetworkDeviceId_def)

lemma derived_same_id:
  assumes "derived_entry d" and "derived_entry e" and "device_id e = device_id d"
    and "connectionType d = Network"
  shows "connectionType e = Network"
proof (cases "connectionType e")
  case USB
  with assms(2) have "starts_with (device_id e) ''usb-''" by (simp add: derived_entry_def)
  moreover from assms(1,4) have "starts_with (device_id d) ''net-''" by (rule derived_entry_net_id)
  ultimately show ?thesis using assms(3) usb_not_net [of "device_id d"] by simp
qed simp

lemma ids_derived_handleConnect: "ids_derived (devices s) \<Longrightarrow> ids_derived (devices (handleConnect h s))"
  by (auto simp: ids_derived_iff handleConnect_def set_devices_def Let_def derived_entry_usb)

lemma ids_derived_handleDisconnect:
  "ids_derived (devices s) \<Longrightarrow> ids_derived (devices (handleDisconnect h s))"
  by (simp add: ids_derived_iff handleDisconnect_def set_devices_def Let_def)

lemma ids_derived_load:
  "ids_derived (devices s) \<Longrightarrow> ids_derived (devices (loadPreviouslyPermittedDevices hs s))"
  by (auto simp: ids_derived_iff loadPreviouslyPermittedDevices_def set_devices_def Let_def
      derived_entry_usb)

lemma ids_derived_scan:
  "ids_derived (devices s) \<Longrightarrow> ids_derived (devices (scanForUsbDevices r s))"
  by (cases r) (simp_all add: scanForUsbDevices_def ids_derived_handleConnect console_write_def)

lemma ids_derived_add:
  "ids_derived (devices s) \<Longrightarrow> ip_pattern (payload_ip p) \<Longrightarrow>
   ids_derived (devices (snd (addNetworkDevice_timeout p s)))"
  by (auto simp: ids_derived_iff addNetworkDevice_timeout_def set_devices_def Let_def
      derived_entry_def)

lemma ids_derived_with_status: "ids_derived ds \<Longrightarrow> ids_derived (with_status i st ds)"
  unfolding ids_derived_iff with_status_def
proof
  fix x assume a: "\<forall>d\<in>set ds. derived_entry d"
    and "x \<in> set (map (\<lambda>d. if device_id d = i then d\<lparr>status := st\<rparr> else d) ds)"
  then obtain e where "x = (if device_id e = i then e\<lparr>status := st\<rparr> else e)" and "e \<in> set ds"
    unfolding set_map by (rule_tac imageE)
  with a show "derived_entry x" by (simp add: derived_entry_status)
qed

lemma ids_derived_connect:
  "ids_derived (devices s) \<Longrightarrow> ids_derived (devices (snd (connectDevice api i s)))"
  using connectDevice_devices [of api i s] by (auto simp: ids_derived_with_status)

lemma ids_derived_disconnect:
  "ids_derived (devices s) \<Longrightarrow> ids_derived (devices (snd (disconnectDevice api i s)))"
  using disconnectDevice_devices [of api i s] by (auto simp: ids_derived_with_status)

lemma ids_derived_edit:
  assumes inv: "ids_derived (devices s)" and en: "enabled (EditNetwork i p) s"
    and valid: "ip_pattern (payload_ip p)"
  shows "ids_derived (devices (snd (editNetworkDevice i p s)))"
proof -
  from edit_devices [of i p s] show ?thesis
  proof
    assume "devices (snd (editNetworkDevice i p s)) = devices s"
    with inv show ?thesis by simp
  next
    assume e: "devices (snd (editNetworkDevice i p s))
                 = map (\<lambda>e. if device_id e = i then edited p e else e) (devices s)"
    show ?thesis
    proof (cases "find (\<lambda>e. device_id e = i) (devices s)")
      case None
      then show ?thesis unfolding e using inv by (simp add: map_edit_absent)
    next
      case (Some d)
      with en have net: "connectionType d = Network" by simp
      from Some have d: "d \<in> set (devices s)" "device_id d = i"
        using find_SomeD [of "\<lambda>e. device_id e = i" "devices s" d] by simp_all
      from inv d(1) have dok: "derived_entry d" by (simp add: ids_derived_iff)
      show ?thesis unfolding e ids_derived_iff
      proof
        fix x assume "x \<in> set (map (\<lambda>e. if device_id e = i then edited p e else e) (devices s))"
        then obtain y where x: "x = (if device_id y = i then edited p y else y)" and y: "y \<in> set (devices s)"
          unfolding set_map by (rule_tac imageE)
        from inv y have yok: "derived_entry y" by (simp add: ids_derived_iff)
        show "derived_entry x"
        proof (cases "device_id y = i")
          case True
          with dok yok d(2) net have "connectionType y = Network"
            using derived_same_id [of d y] by simp
          with valid have "derived_entry (edited p y)" by (rule derived_entry_edited)
          with x True show ?thesis by simp
        next
          case False
          with x yok show ?thesis by simp
        qed
      qed
    qed
  qed
qed

lemma step_ids_derived:
  "ids_derived (devices s) \<Longrightarrow> enabled ev s \<Longrightarrow> validated ev \<Longrightarrow> ids_derived (devices (step ev s))"
proof (cases ev)
  case (EditNetwork i p)
  assume "ids_derived (devices s)" "enabled ev s" "validated ev"
  with EditNetwork show ?thesis using ids_derived_edit [of s i p] by simp
qed (simp_all add: ids_derived_handleConnect ids_derived_handleDisconnect ids_derived_load
       ids_derived_scan ids_derived_add ids_derived_connect ids_derived_disconnect)

lemma run_ids_derived:
  "ids_derived (devices s) \<Longrightarrow> list_all validated evs \<Longrightarrow> run evs s = Some s' \<Longrightarrow>
   ids_derived (devices s')"
proof (induction evs arbitrary: s)
  case Nil
  then show ?case by simp
next
  case (Cons ev evs)
  from Cons.prems(3) have en: "enabled ev s" and r: "run evs (step ev s) = Some s'"
    by (simp_all split: if_splits)
  from Cons.prems(2) have v: "validated ev" "list_all validated evs" by simp_all
  from Cons.prems(1) en v(1) have "ids_derived (devices (step ev s))" by (rule step_ids_derived)
  then show ?case using v(2) r by (rule Cons.IH)
qed

lemma ids_derived_reachable:
  "list_all validated evs \<Longrightarrow> run evs (new_service objs) = Some s \<Longrightarrow> ids_derived (devices s)"
  using run_ids_derived [of "new_service objs" evs s] by (simp add: ids_derived_def new_service_def)

text \<open>The registry of the examples is reached by three events with validated payloads.\<close>

lemma ex_registry_reached: "run ex_events (new_service ex_objs) = Some ex_registry"
  by (simp add: ex_events_def ex_registry_def new_service_def handleConnect_def set_devices_def
      ex_usb_entry_mapped addNetworkDevice_timeout_def ex_payload_def ex_payload_scanner_def
      ex_net_entry_def ex_scanner_entry_def createNetworkDeviceId_def ex_usb_entry_def Let_def)

lemma ex_events_validated: "list_all validated ex_events"
  by (simp add: ex_events_def ex_payload_def ex_payload_scanner_def ip_pattern_def is_digit_def
      Let_def numeral_3_eq_3)

text \<open>Claim C2 (an edit that changes the address replaces the entry in one update). Let \<open>s\<close> be
  a state that the service reaches from its construction by events with validated
  payloads, let \<open>d\<close> be a network entry of its registry whose id no other entry has, and
  let the payload carry an address that passes the pattern of the form, differs from
  the address of \<open>d\<close> and is held by no other entry (otherwise the call is rejected).
  Then \<open>editNetworkDevice\<close> resolves; the signal is set exactly once, to the registry it
  ends with, so no registry without the device is ever published; a lookup of the old
  id in that registry finds nothing; and a lookup of the id derived from the new address
  finds \<open>d\<close> with the five edited fields replaced.\<close>

theorem editNetworkDevice_replaces:
  assumes reach: "run evs (new_service objs) = Some s"
    and val: "list_all validated evs"
    and mem: "d \<in> set (devices s)"
    and net: "connectionType d = Network"
    and uniq: "entries_with_id (device_id d) (devices s) = 1"
    and valid: "ip_pattern (payload_ip p)"
    and changed: "ipAddress d \<noteq> Some (payload_ip p)"
    and free: "find (\<lambda>e. ipAddress e = Some (payload_ip p) \<and> device_id e \<noteq> device_id d) (devices s) = None"
  shows "\<exists>s'. editNetworkDevice (device_id d) p s = (Inr (), s')
           \<and> emitted s' = emitted s @ [devices s']
           \<and> find (\<lambda>e. device_id e = device_id d) (devices s') = None
           \<and> find (\<lambda>e. device_id e = createNetworkDeviceId (payload_ip p)) (devices s')
               = Some (d\<lparr>device_id := createNetworkDeviceId (payload_ip p),
                         name := payload_name p,
                         ipAddress := Some (payload_ip p),
                         port := Some (payload_port p),
                         profile := Some (payload_profile p)\<rparr>)"
proof -
  from val reach have "ids_derived (devices s)" by (rule ids_derived_reachable)
  then show ?thesis using mem net uniq valid changed free by (rule editNetworkDevice_replaces_derived)
qed

text \<open>Claim C2, at a concrete input: the scanner at 10.0.0.7 of a registry of three entries
  is moved to 10.0.0.8.\<close>

theorem editNetworkDevice_replaces_witness:
  "\<exists>s'. editNetworkDevice ''net-10-0-0-7'' ex_payload_moved ex_registry = (Inr (), s')
      \<and> emitted s' = emitted ex_registry @ [devices s']
      \<and> find (\<lambda>e. device_id e = ''net-10-0-0-7'') (devices s') = None
      \<and> find (\<lambda>e. device_id e = ''net-10-0-0-8'') (devices s')
          = Some (ex_scanner_entry\<lparr>device_id := ''net-10-0-0-8'', name := ''Flatbed'',
                    ipAddress := Some ''10.0.0.8'', port := Some 9100, profile := Some ''Archive''\<rparr>)"
proof -
  have 2: "ex_scanner_entry \<in> set (devices ex_registry)" by (simp add: ex_registry_def)
  have 3: "connectionType ex_scanner_entry = Network" by (simp add: ex_scanner_entry_def)
  have 4: "entries_with_id (device_id ex_scanner_entry) (devices ex_registry) = 1"
    by (simp add: entries_with_id_def ex_registry_def ex_usb_entry_def ex_net_entry_def ex_scanner_entry_def)
  have 5: "ip_pattern (payload_ip ex_payload_moved)"
    by (simp add: ex_payload_moved_def ip_pattern_def is_digit_def Let_def numeral_3_eq_3)
  have 6: "ipAddress ex_scanner_entry \<noteq> Some (payload_ip ex_payload_moved)"
    by (simp add: ex_scanner_entry_def ex_payload_moved_def)
  have 7: "find (\<lambda>e. ipAddress e = Some (payload_ip ex_payload_moved)
                     \<and> device_id e \<noteq> device_id ex_scanner_entry) (devices ex_registry) = None"
    by (simp add: ex_registry_def ex_usb_entry_def ex_net_entry_def ex_scanner_entry_def ex_payload_moved_def)
  from editNetworkDevice_replaces [OF ex_registry_reached ex_events_validated 2 3 4 5 6 7] show ?thesis
    by (simp add: ex_scanner_entry_def ex_payload_moved_def createNetworkDeviceId_def)
qed

text \<open>Claim C9 (the id of a network device is a function of its address alone). The id of
  the device that \<open>addNetworkDevice\<close> builds is \<open>createNetworkDeviceId\<close> of the address of
  the payload, whatever the name, port, profile and state. Let \<open>s\<close> be a state that the
  service reaches from its construction by events with validated payloads and \<open>d\<close> a
  network entry of its registry: the id of \<open>d\<close> is \<open>createNetworkDeviceId\<close> of its address.
  Let \<open>editNetworkDevice\<close> be called on \<open>d\<close> with a payload that it accepts and whose address
  passes the pattern of the form. If the payload keeps the address, every id of the
  registry stays as it was, whatever the new port and profile. If the payload changes
  the address, the new id differs from the old one, the old id is gone from the
  registry and the new one is in it.\<close>

theorem createNetworkDeviceId_address_only:
  assumes reach: "run evs (new_service objs) = Some s"
    and val: "list_all validated evs"
    and mem: "d \<in> set (devices s)"
    and net: "connectionType d = Network"
    and valid: "ip_pattern (payload_ip p)"
    and free: "find (\<lambda>e. ipAddress e = Some (payload_ip p) \<and> device_id e \<noteq> device_id d) (devices s) = None"
  shows "device_id (fst (addNetworkDevice_timeout p s0)) = createNetworkDeviceId (payload_ip p)
       \<and> (\<exists>a. ipAddress d = Some a \<and> device_id d = createNetworkDeviceId a)
       \<and> (ipAddress d = Some (payload_ip p) \<longrightarrow>
            map device_id (devices (snd (editNetworkDevice (device_id d) p s))) = map device_id (devices s))
       \<and> (ipAddress d \<noteq> Some (payload_ip p) \<longrightarrow>
            createNetworkDeviceId (payload_ip p) \<noteq> device_id d
          \<and> device_id d \<notin> set (map device_id (devices (snd (editNetworkDevice (device_id d) p s))))
          \<and> createNetworkDeviceId (payload_ip p)
               \<in> set (map device_id (devices (snd (editNetworkDevice (device_id d) p s)))))"
proof -
  from val reach have "ids_derived (devices s)" by (rule ids_derived_reachable)
  from ids_derivedD [OF this mem] net obtain a where
    a: "ipAddress d = Some a" "ip_pattern a" "device_id d = createNetworkDeviceId a" by auto
  have x: "\<exists>a. ipAddress d = Some a \<and> device_id d = createNetworkDeviceId a"
    using a(1,3) by blast
  have eq: "(ipAddress d = Some (payload_ip p)) = (payload_ip p = a)" using a(1) by auto
  from edit_id_follows_address [OF mem a(1) a(3) free, of s0] x a(2) valid
  show ?thesis unfolding eq by blast
qed

text \<open>Claim C9, at a concrete input: the scanner at 10.0.0.7 is edited once with another
  port and profile and once with the address 10.0.0.8.\<close>

theorem createNetworkDeviceId_address_only_witness:
  "map device_id (devices (snd (editNetworkDevice ''net-10-0-0-7'' ex_payload_port ex_registry)))
     = map device_id (devices ex_registry)
   \<and> createNetworkDeviceId ''10.0.0.8'' \<noteq> ''net-10-0-0-7''
   \<and> ''net-10-0-0-7'' \<notin> set (map device_id (devices (snd (editNetworkDevice ''net-10-0-0-7'' ex_payload_moved ex_registry))))"
proof -
  have m: "ex_scanner_entry \<in> set (devices ex_registry)" by (simp add: ex_registry_def)
  have n: "connectionType ex_scanner_entry = Network" by (simp add: ex_scanner_entry_def)
  have a: "ipAddress ex_scanner_entry = Some ''10.0.0.7''" by (simp add: ex_scanner_entry_def)
  have i: "device_id ex_scanner_entry = ''net-10-0-0-7''" by (simp add: ex_scanner_entry_def)
  have f1: "find (\<lambda>e. ipAddress e = Some (payload_ip ex_payload_port)
                     \<and> device_id e \<noteq> device_id ex_scanner_entry) (devices ex_registry) = None"
    by (simp add: ex_registry_def ex_usb_entry_def ex_net_entry_def ex_scanner_entry_def ex_payload_port_def)
  have f2: "find (\<lambda>e. ipAddress e = Some (payload_ip ex_payload_moved)
                     \<and> device_id e \<noteq> device_id ex_scanner_entry) (devices ex_registry) = None"
    by (simp add: ex_registry_def ex_usb_entry_def ex_net_entry_def ex_scanner_entry_def ex_payload_moved_def)
  have p1: "payload_ip ex_payload_port = ''10.0.0.7''" by (simp add: ex_payload_port_def)
  have p2: "payload_ip ex_payload_moved = ''10.0.0.8''" by (simp add: ex_payload_moved_def)
  have v1: "ip_pattern (payload_ip ex_payload_port)" and v2: "ip_pattern (payload_ip ex_payload_moved)"
    by (simp_all add: p1 p2 ip_pattern_def is_digit_def Let_def numeral_3_eq_3)
  note t1 = createNetworkDeviceId_address_only [OF ex_registry_reached ex_events_validated m n v1 f1,
      unfolded i p1 a]
  note t2 = createNetworkDeviceId_address_only [OF ex_registry_reached ex_events_validated m n v2 f2,
      unfolded i p2 a]
  from t1 have c1: "map device_id (devices (snd (editNetworkDevice ''net-10-0-0-7'' ex_payload_port ex_registry)))
     = map device_id (devices ex_registry)" by (simp add: createNetworkDeviceId_def)
  from t2 have c2: "createNetworkDeviceId ''10.0.0.8'' \<noteq> ''net-10-0-0-7''
     \<and> ''net-10-0-0-7'' \<notin> set (map device_id (devices (snd (editNetworkDevice ''net-10-0-0-7'' ex_payload_moved ex_registry))))"
    by (simp add: createNetworkDeviceId_def)
  from c1 c2 show ?thesis by simp
qed

section \<open>The checks of the add/edit form\<close>

lemma digit_groups_0: "digit_groups 0 s \<longleftrightarrow> digit_group s"
proof
  assume a: "digit_groups 0 s"
  then have "dropWhile is_digit s = []" by (simp add: Let_def)
  then have all: "\<forall>x\<in>set s. is_digit x" by (simp add: dropWhile_eq_Nil_conv)
  then have "takeWhile is_digit s = s" by (simp add: takeWhile_eq_all_conv)
  with a all show "digit_group s" by (simp add: digit_group_def Let_def list_all_iff)
next
  assume "digit_group s"
  then have all: "\<forall>x\<in>set s. is_digit x" and len: "1 \<le> length s" "length s \<le> 3"
    by (simp_all add: digit_group_def list_all_iff)
  from all have t: "takeWhile is_digit s = s" and d: "dropWhile is_digit s = []"
    by (simp_all add: takeWhile_eq_all_conv dropWhile_eq_Nil_conv)
  from len show "digit_groups 0 s" by (simp add: t d Let_def)
qed

lemma not_digit_dot: "\<not> is_digit CHR ''.''"
  by (simp add: is_digit_def)

lemma digit_groups_Suc:
  "digit_groups (Suc n) s \<longleftrightarrow> (\<exists>g r. s = g @ ''.'' @ r \<and> digit_group g \<and> digit_groups n r)"
proof
  assume a: "digit_groups (Suc n) s"
  then obtain r where r: "dropWhile is_digit s = CHR ''.'' # r" and g: "digit_groups n r"
    and len: "1 \<le> length (takeWhile is_digit s)" "length (takeWhile is_digit s) \<le> 3"
    by (cases "dropWhile is_digit s") (simp_all add: Let_def)
  have "s = takeWhile is_digit s @ dropWhile is_digit s" by simp
  then have s: "s = takeWhile is_digit s @ ''.'' @ r" unfolding r by simp
  have "\<forall>x\<in>set (takeWhile is_digit s). is_digit x" by (auto dest: set_takeWhileD)
  with len have "digit_group (takeWhile is_digit s)" by (simp add: digit_group_def list_all_iff)
  with s g show "\<exists>g r. s = g @ ''.'' @ r \<and> digit_group g \<and> digit_groups n r" by blast
next
  assume "\<exists>g r. s = g @ ''.'' @ r \<and> digit_group g \<and> digit_groups n r"
  then obtain g r where s: "s = g @ ''.'' @ r" and gg: "digit_group g" and gr: "digit_groups n r"
    by blast
  from gg have all: "\<And>x. x \<in> set g \<Longrightarrow> is_digit x" and len: "1 \<le> length g" "length g \<le> 3"
    by (simp_all add: digit_group_def list_all_iff)
  have t: "takeWhile is_digit s = g"
    unfolding s using all by (simp add: takeWhile_append2 not_digit_dot)
  have d: "dropWhile is_digit s = CHR ''.'' # r"
    unfolding s using all by (simp add: dropWhile_append2 not_digit_dot)
  show "digit_groups (Suc n) s" using len gr by (simp add: t d Let_def)
qed

lemma ip_pattern_groups:
  "ip_pattern s \<longleftrightarrow>
     (\<exists>a b c d. s = a @ ''.'' @ b @ ''.'' @ c @ ''.'' @ d
        \<and> digit_group a \<and> digit_group b \<and> digit_group c \<and> digit_group d)"
  unfolding ip_pattern_def numeral_3_eq_3 digit_groups_Suc digit_groups_0 by blast

lemma checks_name: "confirmSaveDevice_checks [] ipa prt prof = Inl ''Device Name is required.''"
  by (simp add: confirmSaveDevice_checks_def)

lemma checks_address:
  "nm \<noteq> [] \<Longrightarrow> \<not> ip_pattern ipa \<Longrightarrow>
   confirmSaveDevice_checks nm ipa prt prof = Inl ''Please enter a valid IP address.''"
  by (simp add: confirmSaveDevice_checks_def)

lemma checks_port:
  "nm \<noteq> [] \<Longrightarrow> ip_pattern ipa \<Longrightarrow> prt = None \<or> (\<exists>n. prt = Some n \<and> (n < 1 \<or> 65535 < n)) \<Longrightarrow>
   confirmSaveDevice_checks nm ipa prt prof = Inl ''Please enter a valid port number (1-65535).''"
  by (auto simp: confirmSaveDevice_checks_def)

lemma checks_profile:
  "nm \<noteq> [] \<Longrightarrow> ip_pattern ipa \<Longrightarrow> 1 \<le> n \<Longrightarrow> n \<le> 65535 \<Longrightarrow>
   confirmSaveDevice_checks nm ipa (Some n) [] = Inl ''Profile Name is required.''"
  by (simp add: confirmSaveDevice_checks_def)

lemma checks_pass:
  "nm \<noteq> [] \<Longrightarrow> ip_pattern ipa \<Longrightarrow> 1 \<le> n \<Longrightarrow> n \<le> 65535 \<Longrightarrow> prof \<noteq> [] \<Longrightarrow>
   confirmSaveDevice_checks nm ipa (Some n) prof
     = Inr \<lparr>payload_ip = ipa, payload_port = n, payload_name = nm, payload_profile = prof\<rparr>"
  by (simp add: confirmSaveDevice_checks_def)

lemma confirmSaveDevice_rejected:
  "confirmSaveDevice_checks (trim (addByIpName m)) (trim (addByIpAddress m))
      (parseInt (trim (addByIpPort m))) (trim (addByIpProfile m)) = Inl msg \<Longrightarrow>
   confirmSaveDevice m s = (m\<lparr>addByIpError := msg\<rparr>, s)"
  by (simp add: confirmSaveDevice_def Let_def)

lemma parseInt_70000: "parseInt (trim ''70000'') = Some 70000"
  by (simp add: parseInt_def trim_def is_space_def is_digit_def digit_value_def Let_def)

text \<open>Claim C6 (the checks of the form, in order, stopping at the first violation). On the
  trimmed fields: an empty name gives the message about the name, whatever the other
  fields are; with a name, an address that does not match the pattern gives the message
  about the address; with a name and a matching address, a port that is not a number or
  lies outside 1 to 65535 gives the message about the port; with these three in order,
  an empty profile gives the message about the profile; with all four in order the
  payload is built. Whenever a check gives a message, \<open>confirmSaveDevice\<close> puts it in
  \<open>addByIpError\<close> and returns without calling the service. The pattern holds exactly for
  four groups of one to three digits with a dot between them, without a bound on the
  value of a group. A form with the port 70000, a name and a matching address ends with
  the message about the port.\<close>

theorem confirmSaveDevice_first_violation:
  "confirmSaveDevice_checks [] ipa prt prof = Inl ''Device Name is required.''
 \<and> (nm \<noteq> [] \<and> \<not> ip_pattern ipa \<longrightarrow>
      confirmSaveDevice_checks nm ipa prt prof = Inl ''Please enter a valid IP address.'')
 \<and> (nm \<noteq> [] \<and> ip_pattern ipa \<and> (prt = None \<or> (\<exists>n. prt = Some n \<and> (n < 1 \<or> 65535 < n))) \<longrightarrow>
      confirmSaveDevice_checks nm ipa prt prof = Inl ''Please enter a valid port number (1-65535).'')
 \<and> (nm \<noteq> [] \<and> ip_pattern ipa \<and> 1 \<le> n \<and> n \<le> 65535 \<longrightarrow>
      confirmSaveDevice_checks nm ipa (Some n) [] = Inl ''Profile Name is required.'')
 \<and> (nm \<noteq> [] \<and> ip_pattern ipa \<and> 1 \<le> n \<and> n \<le> 65535 \<and> prof \<noteq> [] \<longrightarrow>
      confirmSaveDevice_checks nm ipa (Some n) prof
        = Inr \<lparr>payload_ip = ipa, payload_port = n, payload_name = nm, payload_profile = prof\<rparr>)
 \<and> (confirmSaveDevice_checks (trim (addByIpName m)) (trim (addByIpAddress m))
        (parseInt (trim (addByIpPort m))) (trim (addByIpProfile m)) = Inl msg \<longrightarrow>
      confirmSaveDevice m s = (m\<lparr>addByIpError := msg\<rparr>, s))
 \<and> (ip_pattern ipa \<longleftrightarrow>
      (\<exists>a b c d. ipa = a @ ''.'' @ b @ ''.'' @ c @ ''.'' @ d
         \<and> digit_group a \<and> digit_group b \<and> digit_group c \<and> digit_group d))
 \<and> (trim (addByIpName m) \<noteq> [] \<and> ip_pattern (trim (addByIpAddress m)) \<and> addByIpPort m = ''70000'' \<longrightarrow>
      confirmSaveDevice m s = (m\<lparr>addByIpError := ''Please enter a valid port number (1-65535).''\<rparr>, s))"
proof -
  have p: "confirmSaveDevice m s = (m\<lparr>addByIpError := ''Please enter a valid port number (1-65535).''\<rparr>, s)"
    if "trim (addByIpName m) \<noteq> []" "ip_pattern (trim (addByIpAddress m))" "addByIpPort m = ''70000''"
  proof (rule confirmSaveDevice_rejected)
    show "confirmSaveDevice_checks (trim (addByIpName m)) (trim (addByIpAddress m))
      (parseInt (trim (addByIpPort m))) (trim (addByIpProfile m)) = Inl ''Please enter a valid port number (1-65535).''"
      using that(1,2) unfolding that(3) parseInt_70000 by (rule checks_port) simp
  qed
  show ?thesis
    using checks_name [of ipa prt prof] checks_address [of nm ipa prt prof]
      checks_port [of nm ipa prt prof] checks_profile [of nm ipa n] checks_pass [of nm ipa n prof]
      confirmSaveDevice_rejected [of m msg s] ip_pattern_groups [of ipa] p
    by blast
qed

text \<open>Claim C6, at concrete inputs: the starting values of the form with the port 70000, and
  four calls of the checks that fail at the name, the address, the port and the
  profile, the last two with the address 999.1.1.1.\<close>

theorem confirmSaveDevice_first_violation_witness:
  "confirmSaveDevice ex_modal ex_service
     = (ex_modal\<lparr>addByIpError := ''Please enter a valid port number (1-65535).''\<rparr>, ex_service)
   \<and> confirmSaveDevice_checks '''' ''bad'' None '''' = Inl ''Device Name is required.''
   \<and> confirmSaveDevice_checks ''HP'' ''bad'' None '''' = Inl ''Please enter a valid IP address.''
   \<and> confirmSaveDevice_checks ''HP'' ''999.1.1.1'' (Some 70000) '''' = Inl ''Please enter a valid port number (1-65535).''
   \<and> confirmSaveDevice_checks ''HP'' ''999.1.1.1'' (Some 80) '''' = Inl ''Profile Name is required.''"
proof -
  have 1: "trim (addByIpName ex_modal) \<noteq> []"
    by (simp add: ex_modal_def trim_def is_space_def)
  have 2: "ip_pattern (trim (addByIpAddress ex_modal))"
    by (simp add: ex_modal_def trim_def is_space_def ip_pattern_def is_digit_def Let_def numeral_3_eq_3)
  have 3: "addByIpPort ex_modal = ''70000''" by (simp add: ex_modal_def)
  have 4: "\<not> ip_pattern ''bad''" by (simp add: ip_pattern_def is_digit_def Let_def numeral_3_eq_3)
  have 5: "ip_pattern ''999.1.1.1''" by (simp add: ip_pattern_def is_digit_def Let_def numeral_3_eq_3)
  from confirmSaveDevice_first_violation [of "''bad''" None "''''" "''HP''" 80 ex_modal "''''" ex_service]
    confirmSaveDevice_first_violation [of "''999.1.1.1''" "Some 70000" "''''" "''HP''" 80 ex_modal "''''" ex_service]
    1 2 3 4 5
  show ?thesis by simp
qed

section \<open>The AI facade without a credential\<close>

text \<open>Claim C7 fails for \<open>extractStructuredData\<close>: without \<open>API_KEY\<close> the call throws, here on
  a well-formed data URL.\<close>

theorem extractStructuredData_throws_without_key:
  "no_api_key ex_env_no_key
   \<and> extractStructuredData ex_env_no_key ex_image
       = Inl (JsError ''API_KEY environment variable not set. Gemini API will not work.'')"
  by (simp add: no_api_key_def ex_env_no_key_def extractStructuredData_def)

text \<open>Claim C7, amended: without \<open>API_KEY\<close> two of the three calls return a labelled
  placeholder and the third throws a labelled error. \<open>getTroubleshootingSteps\<close> returns
  the single step titled \<open>API Key Not Configured\<close>; \<open>analyzeImage\<close> returns the text that
  starts with \<open>Error: API_KEY\<close>; \<open>extractStructuredData\<close> throws an \<open>Error\<close> whose message
  says that \<open>API_KEY\<close> is not set. None of them reaches the remote service.\<close>

theorem gemini_without_api_key:
  assumes "no_api_key env"
  shows "getTroubleshootingSteps env deviceName issue
           = Inr \<lparr>steps = [\<lparr>title = ''API Key Not Configured'',
                             details = [''Please set the API_KEY environment variable to use the AI Troubleshooter.'']\<rparr>]\<rparr>
       \<and> analyzeImage env base64Image prompt
           = Inr ''Error: API_KEY environment variable not set. Gemini API will not work.''
       \<and> extractStructuredData env base64Image
           = Inl (JsError ''API_KEY environment variable not set. Gemini API will not work.'')"
  using assms by (simp add: getTroubleshootingSteps_def analyzeImage_def extractStructuredData_def)

text \<open>Claim C7 as amended, at a concrete input: an environment without \<open>API_KEY\<close>.\<close>

theorem gemini_without_api_key_witness:
  "no_api_key ex_env_no_key
   \<and> getTroubleshootingSteps ex_env_no_key ''HP LaserJet'' ''it has a paper jam''
       = Inr \<lparr>steps = [\<lparr>title = ''API Key Not Configured'',
                         details = [''Please set the API_KEY environment variable to use the AI Troubleshooter.'']\<rparr>]\<rparr>
   \<and> analyzeImage ex_env_no_key ex_image ''Extract all text''
       = Inr ''Error: API_KEY environment variable not set. Gemini API will not work.''
   \<and> extractStructuredData ex_env_no_key ex_image
       = Inl (JsError ''API_KEY environment variable not set. Gemini API will not work.'')"
proof -
  have h: "no_api_key ex_env_no_key" by (simp add: no_api_key_def ex_env_no_key_def)
  from h gemini_without_api_key [OF h, of "''HP LaserJet''" "''it has a paper jam''" ex_image "''Extract all text''"]
  show ?thesis by simp
qed

end
